theory Spec2Isabelle
  imports Complex_Main
begin

section \<open>Values, parameter sets and effects\<close>

text \<open>
  The fuzzy cache of \<^verbatim>\<open>src/fuzzy-cache\<close> is written in TypeScript on top of the Effect
  library. This theory embeds its matcher (\<^verbatim>\<open>match.ts\<close>), its embedding memoizer
  (\<^verbatim>\<open>embeddings.ts\<close>), its entry store (\<^verbatim>\<open>store.ts\<close>) and its caching wrapper
  (\<^verbatim>\<open>service.ts\<close>).

  A value of a parameter field is \<^verbatim>\<open>undefined\<close>, \<^verbatim>\<open>null\<close>, a boolean, a number, a string,
  a plain object or array, a \<^verbatim>\<open>Date\<close>, or a member of \<^verbatim>\<open>Object.prototype\<close>. A number is
  finite (\<open>Num r\<close>, the two zeros being one value), \<^verbatim>\<open>NaN\<close>, or an infinity. A string is
  a list of bytes (its UTF-8 encoding). A plain object or array is represented by its
  identity \<open>Obj a\<close>, which is all that \<^verbatim>\<open>===\<close> and \<^verbatim>\<open>Equal.equals\<close> look at. A date is
  represented by its identity and its time value in milliseconds; a date whose time value
  is \<^verbatim>\<open>NaN\<close>, and the values that implement the \<^verbatim>\<open>Equal\<close> interface of the Effect
  library, are outside the model. \<open>Builtin name\<close> is the member of \<^verbatim>\<open>Object.prototype\<close> of
  that name.

  The scores, the similarity thresholds, the time of a call, the creation time of an entry
  and the TTL are real numbers, and the arithmetic on them is exact.
\<close>

datatype jsval =
    Undefined
  | Null
  | Bool bool
  | Num real
  | NaN
  | PosInfinity
  | NegInfinity
  | Str string
  | Obj nat
  | DateObj nat int
  | Builtin string

text \<open>The names of the properties of \<^verbatim>\<open>Object.prototype\<close>, which every ordinary object inherits.\<close>

definition Object_prototype_names :: "string list" where
  "Object_prototype_names =
     [''constructor'', ''__defineGetter__'', ''__defineSetter__'', ''hasOwnProperty'',
      ''__lookupGetter__'', ''__lookupSetter__'', ''isPrototypeOf'', ''propertyIsEnumerable'',
      ''toString'', ''valueOf'', ''__proto__'', ''toLocaleString'']"

text \<open>
  A parameter set is an ordinary object: its own enumerable properties with their values,
  in the order in which \<^verbatim>\<open>Object.keys\<close> lists them. \<open>Object_keys\<close> is \<^verbatim>\<open>Object.keys(p)\<close> and
  \<open>get_field p key\<close> is \<^verbatim>\<open>p[key]\<close>: the own property, else the property inherited from
  \<^verbatim>\<open>Object.prototype\<close>, else \<^verbatim>\<open>undefined\<close>.
\<close>

type_synonym Params = "(string \<times> jsval) list"

definition Object_keys :: "Params \<Rightarrow> string list" where
  "Object_keys p = map fst p"

definition get_field :: "Params \<Rightarrow> string \<Rightarrow> jsval" where
  "get_field p key =
     (case map_of p key of
        Some v \<Rightarrow> v
      | None \<Rightarrow> if key \<in> set Object_prototype_names then Builtin key else Undefined)"

text \<open>
  \<open>strict_equals\<close> is \<^verbatim>\<open>v === w\<close>, which is false of \<^verbatim>\<open>NaN\<close> and itself.
  \<open>Equal_equals\<close> is \<^verbatim>\<open>Equal.equals\<close> of the Effect library on the values above: true when
  \<^verbatim>\<open>self === that\<close>, true of two dates with the same time value (they have the same
  \<^verbatim>\<open>toISOString()\<close>), and false otherwise, plain objects not being compared by structure.
\<close>

definition strict_equals :: "jsval \<Rightarrow> jsval \<Rightarrow> bool" where
  "strict_equals v w = (v = w \<and> v \<noteq> NaN)"

definition Equal_equals :: "jsval \<Rightarrow> jsval \<Rightarrow> bool" where
  "Equal_equals self that =
     (strict_equals self that \<or>
      (case (self, that) of (DateObj a t, DateObj b t') \<Rightarrow> t = t' | _ \<Rightarrow> False))"

text \<open>
  The run of an effect ends in an \<^verbatim>\<open>Exit\<close>: a success, or a failure with its cause. A cause
  is an expected failure \<open>Fail e\<close> (\<^verbatim>\<open>Effect.fail\<close>) or a defect \<open>Die d\<close> (\<^verbatim>\<open>Effect.die\<close>,
  \<^verbatim>\<open>Effect.dieMessage\<close>, an exception thrown while the effect runs), the defect being
  represented by its message. Interruption belongs to concurrent runs and is not modelled.
  An effect is a function of the state of the world it acts on, returning its exit and the
  new state.
\<close>

datatype 'e cause = Fail 'e | Die string

datatype ('a, 'e) exit = Success 'a | Failure "'e cause"

type_synonym ('a, 'e, 'w) effect = "'w \<Rightarrow> ('a, 'e) exit \<times> 'w"

definition succeed :: "'a \<Rightarrow> ('a, 'e, 'w) effect" where
  "succeed a w = (Success a, w)"

definition failCause :: "'e cause \<Rightarrow> ('a, 'e, 'w) effect" where
  "failCause c w = (Failure c, w)"

definition dieMessage :: "string \<Rightarrow> ('a, 'e, 'w) effect" where
  "dieMessage msg w = (Failure (Die msg), w)"

text \<open>
  What the platform contributes and the repository does not define: the parser of the part
  of a URL before its fragment (\<open>None\<close> when \<^verbatim>\<open>new URL\<close> throws, otherwise the serialised
  scheme, authority, path and query), \<^verbatim>\<open>String(v)\<close> of a value that is not a string, and
  \<^verbatim>\<open>v < w\<close> of two values that are not both numbers.
\<close>

record platform =
  parse_base :: "string \<Rightarrow> string option"
  to_string :: "jsval \<Rightarrow> string"
  less_than :: "jsval \<Rightarrow> jsval \<Rightarrow> bool"

definition String_js :: "platform \<Rightarrow> jsval \<Rightarrow> string" where
  "String_js P v = (case v of Str s \<Rightarrow> s | _ \<Rightarrow> to_string P v)"

text \<open>
  \<^verbatim>\<open>v < w\<close>. Two numbers are compared in the order of the numbers, in which \<^verbatim>\<open>NaN\<close> is
  below nothing and nothing is below \<^verbatim>\<open>NaN\<close>. A comparison of \<^verbatim>\<open>NaN\<close> with a value that is
  not a number converts that value to a number and is false whatever the number is.
\<close>

definition is_number :: "jsval \<Rightarrow> bool" where
  "is_number v =
     (case v of Num x \<Rightarrow> True | NaN \<Rightarrow> True | PosInfinity \<Rightarrow> True | NegInfinity \<Rightarrow> True
      | _ \<Rightarrow> False)"

definition number_less :: "jsval \<Rightarrow> jsval \<Rightarrow> bool" where
  "number_less v w =
     (case v of
        Num x \<Rightarrow> (case w of Num y \<Rightarrow> x < y | PosInfinity \<Rightarrow> True | _ \<Rightarrow> False)
      | NegInfinity \<Rightarrow> (case w of Num y \<Rightarrow> True | PosInfinity \<Rightarrow> True | _ \<Rightarrow> False)
      | _ \<Rightarrow> False)"

definition js_less :: "platform \<Rightarrow> jsval \<Rightarrow> jsval \<Rightarrow> bool" where
  "js_less P v w =
     (if is_number v \<and> is_number w then number_less v w
      else if v = NaN \<or> w = NaN then False
      else less_than P v w)"

section \<open>URL normalization\<close>

text \<open>
  The platform's \<^verbatim>\<open>URL\<close> class, as far as \<^verbatim>\<open>normalizeUrl\<close> uses it. The parser strips
  leading and trailing C0 controls and spaces, removes every tab and newline, parses what
  stands before the first \<open>#\<close> (\<open>before_hash\<close>) and hands what follows it (\<open>after_hash\<close>)
  to the fragment state, which percent-encodes the bytes of the fragment percent-encode set
  and copies the others. The serialiser appends \<open>#\<close> and the fragment when there is
  one; assigning the empty string to \<^verbatim>\<open>hash\<close> removes it (the stripping of trailing
  spaces from an opaque path that goes with it is not modelled).
\<close>

record url =
  base :: string
  fragment :: "string option"

definition is_c0_or_space :: "char \<Rightarrow> bool" where
  "is_c0_or_space c = ((of_char c :: nat) \<le> 32)"

definition is_tab_or_newline :: "char \<Rightarrow> bool" where
  "is_tab_or_newline c = ((of_char c :: nat) \<in> {9, 10, 13})"

definition url_preprocess :: "string \<Rightarrow> string" where
  "url_preprocess s =
     filter (\<lambda>c. \<not> is_tab_or_newline c)
       (rev (dropWhile is_c0_or_space (rev (dropWhile is_c0_or_space s))))"

definition in_fragment_encode_set :: "char \<Rightarrow> bool" where
  "in_fragment_encode_set c =
     (let n = (of_char c :: nat)
      in n \<le> 32 \<or> n > 126 \<or> n \<in> {34, 60, 62, 96})"

definition hex_digit :: "nat \<Rightarrow> char" where
  "hex_digit n = (''0123456789ABCDEF'' ! n)"

definition percent_encode :: "char \<Rightarrow> string" where
  "percent_encode c =
     (let n = (of_char c :: nat)
      in [CHR ''%'', hex_digit (n div 16), hex_digit (n mod 16)])"

definition encode_fragment :: "string \<Rightarrow> string" where
  "encode_fragment f =
     concat (map (\<lambda>c. if in_fragment_encode_set c then percent_encode c else [c]) f)"

definition before_hash :: "string \<Rightarrow> string" where
  "before_hash s = takeWhile (\<lambda>c. c \<noteq> CHR ''#'') s"

definition after_hash :: "string \<Rightarrow> string option" where
  "after_hash s = (case dropWhile (\<lambda>c. c \<noteq> CHR ''#'') s of [] \<Rightarrow> None | c # f \<Rightarrow> Some f)"

definition new_URL :: "platform \<Rightarrow> string \<Rightarrow> url option" where
  "new_URL P raw =
     (let s = url_preprocess raw
      in case parse_base P (before_hash s) of
           None \<Rightarrow> None
         | Some b \<Rightarrow> Some \<lparr>base = b, fragment = map_option encode_fragment (after_hash s)\<rparr>)"

definition url_toString :: "url \<Rightarrow> string" where
  "url_toString u = base u @ (case fragment u of None \<Rightarrow> [] | Some f \<Rightarrow> CHR ''#'' # f)"

text \<open>
  \<^verbatim>\<open>normalizeUrl(raw, spec)\<close>. The \<^verbatim>\<open>excludeHash\<close> property is optional, and an absent one
  is falsy. When the parse throws, the raw value comes back as it is.
\<close>

definition normalizeUrl :: "platform \<Rightarrow> jsval \<Rightarrow> bool option \<Rightarrow> jsval" where
  "normalizeUrl P raw excludeHash =
     (case new_URL P (String_js P raw) of
        None \<Rightarrow> raw
      | Some u \<Rightarrow>
          Str (url_toString (if excludeHash = Some True then u\<lparr>fragment := None\<rparr> else u)))"

section \<open>Cosine similarity\<close>

text \<open>
  The elements of the vectors and the variables of \<^verbatim>\<open>cosineSimilarity\<close> are IEEE 754
  double-precision numbers: a finite number, an infinity, or \<^verbatim>\<open>NaN\<close>. A finite double is
  represented by its real value, the two zeros being one value (the sign of a zero does not
  reach the result of \<^verbatim>\<open>cosineSimilarity\<close>, which compares with \<^verbatim>\<open>=== 0\<close> and divides by
  no zero).

  \<open>round_double\<close> rounds a real number to the nearest number with a significand of 53 bits
  and an exponent of at least that of the subnormal numbers, ties going to the even
  significand: \<open>ulp_exponent x\<close> is the exponent of the unit in the last place at \<open>x\<close>, and
  \<open>round_half_even\<close> rounds the quotient by that unit to an integer. \<open>fl\<close> is the result
  of an operation whose exact value is \<open>x\<close>: the rounded value, or an infinity when the
  rounded value leaves the range of the finite doubles.
\<close>

datatype float64 = Finite real | PlusInfinity | MinusInfinity | NotANumber

definition round_half_even :: "real \<Rightarrow> int" where
  "round_half_even q =
     (let f = \<lfloor>q\<rfloor>
      in if q - of_int f < 1 / 2 then f
         else if 1 / 2 < q - of_int f then f + 1
         else if even f then f else f + 1)"

definition ulp_exponent :: "real \<Rightarrow> int" where
  "ulp_exponent x = max (\<lfloor>log 2 \<bar>x\<bar>\<rfloor> - 52) (- 1074)"

definition round_double :: "real \<Rightarrow> real" where
  "round_double x =
     (if x = 0 then 0
      else of_int (round_half_even (x / 2 powr of_int (ulp_exponent x))) *
           2 powr of_int (ulp_exponent x))"

definition fl :: "real \<Rightarrow> float64" where
  "fl x =
     (let r = round_double x
      in if 2 ^ 1024 \<le> r then PlusInfinity
         else if r \<le> - (2 ^ 1024) then MinusInfinity
         else Finite r)"

text \<open>
  The operations \<^verbatim>\<open>*\<close>, \<^verbatim>\<open>+\<close>, \<^verbatim>\<open>/\<close> and \<^verbatim>\<open>Math.sqrt\<close> on doubles; the first equation that
  applies is the one that holds. \<^verbatim>\<open>Math.sqrt\<close> is correctly rounded, as the square root of
  IEEE 754 is. A zero divisor is taken to be the positive zero.
\<close>

fun mul64 :: "float64 \<Rightarrow> float64 \<Rightarrow> float64" where
  "mul64 (Finite x) (Finite y) = fl (x * y)"
| "mul64 NotANumber b = NotANumber"
| "mul64 a NotANumber = NotANumber"
| "mul64 (Finite x) PlusInfinity =
     (if x = 0 then NotANumber else if 0 < x then PlusInfinity else MinusInfinity)"
| "mul64 (Finite x) MinusInfinity =
     (if x = 0 then NotANumber else if 0 < x then MinusInfinity else PlusInfinity)"
| "mul64 PlusInfinity (Finite y) =
     (if y = 0 then NotANumber else if 0 < y then PlusInfinity else MinusInfinity)"
| "mul64 MinusInfinity (Finite y) =
     (if y = 0 then NotANumber else if 0 < y then MinusInfinity else PlusInfinity)"
| "mul64 PlusInfinity PlusInfinity = PlusInfinity"
| "mul64 MinusInfinity MinusInfinity = PlusInfinity"
| "mul64 PlusInfinity MinusInfinity = MinusInfinity"
| "mul64 MinusInfinity PlusInfinity = MinusInfinity"

fun add64 :: "float64 \<Rightarrow> float64 \<Rightarrow> float64" where
  "add64 (Finite x) (Finite y) = fl (x + y)"
| "add64 NotANumber b = NotANumber"
| "add64 a NotANumber = NotANumber"
| "add64 PlusInfinity MinusInfinity = NotANumber"
| "add64 MinusInfinity PlusInfinity = NotANumber"
| "add64 PlusInfinity b = PlusInfinity"
| "add64 a PlusInfinity = PlusInfinity"
| "add64 MinusInfinity b = MinusInfinity"
| "add64 a MinusInfinity = MinusInfinity"

fun div64 :: "float64 \<Rightarrow> float64 \<Rightarrow> float64" where
  "div64 (Finite x) (Finite y) =
     (if y = 0
      then (if x = 0 then NotANumber else if 0 < x then PlusInfinity else MinusInfinity)
      else fl (x / y))"
| "div64 NotANumber b = NotANumber"
| "div64 a NotANumber = NotANumber"
| "div64 (Finite x) PlusInfinity = Finite 0"
| "div64 (Finite x) MinusInfinity = Finite 0"
| "div64 PlusInfinity (Finite y) = (if 0 \<le> y then PlusInfinity else MinusInfinity)"
| "div64 MinusInfinity (Finite y) = (if 0 \<le> y then MinusInfinity else PlusInfinity)"
| "div64 a b = NotANumber"

fun sqrt64 :: "float64 \<Rightarrow> float64" where
  "sqrt64 (Finite x) = (if x < 0 then NotANumber else fl (sqrt x))"
| "sqrt64 PlusInfinity = PlusInfinity"
| "sqrt64 MinusInfinity = NotANumber"
| "sqrt64 NotANumber = NotANumber"

text \<open>
  The loop of \<^verbatim>\<open>cosineSimilarity\<close> runs over the indices below
  \<^verbatim>\<open>Math.min(a.length, b.length)\<close>, that is, over both arrays in step until one ends,
  accumulating \<^verbatim>\<open>dot\<close>, \<^verbatim>\<open>magA\<close> and \<^verbatim>\<open>magB\<close>.
\<close>

fun cosineLoop ::
  "float64 list \<Rightarrow> float64 list \<Rightarrow> float64 \<times> float64 \<times> float64 \<Rightarrow>
     float64 \<times> float64 \<times> float64" where
  "cosineLoop (ai # as) (bi # bs) (dot, magA, magB) =
     cosineLoop as bs (add64 dot (mul64 ai bi), add64 magA (mul64 ai ai),
                       add64 magB (mul64 bi bi))"
| "cosineLoop _ _ acc = acc"

definition cosineSimilarity :: "float64 list \<Rightarrow> float64 list \<Rightarrow> float64" where
  "cosineSimilarity a b =
     (case cosineLoop a b (Finite 0, Finite 0, Finite 0) of
        (dot, magA, magB) \<Rightarrow>
          if magA = Finite 0 \<or> magB = Finite 0 then Finite 0
          else div64 dot (mul64 (sqrt64 magA) (sqrt64 magB)))"

text \<open>
  The same function in exact arithmetic, on vectors of real numbers. The scoring below uses
  it, so that a score is a real number: the embedding vectors of the matcher are taken to be
  finite, and the rounding of the similarity is left out of the scores.
\<close>

fun cosineLoop_exact ::
  "real list \<Rightarrow> real list \<Rightarrow> real \<times> real \<times> real \<Rightarrow> real \<times> real \<times> real" where
  "cosineLoop_exact (ai # as) (bi # bs) (dot, magA, magB) =
     cosineLoop_exact as bs (dot + ai * bi, magA + ai * ai, magB + bi * bi)"
| "cosineLoop_exact _ _ acc = acc"

definition cosineSimilarity_exact :: "real list \<Rightarrow> real list \<Rightarrow> real" where
  "cosineSimilarity_exact a b =
     (case cosineLoop_exact a b (0, 0, 0) of
        (dot, magA, magB) \<Rightarrow>
          if magA = 0 \<or> magB = 0 then 0 else dot / (sqrt magA * sqrt magB))"

section \<open>Scoring a candidate\<close>

text \<open>
  The fuzzy field specifications of \<^verbatim>\<open>types.ts\<close>; a \<^verbatim>\<open>FuzzyParamsSpec\<close> gives each field
  name at most one of them as an own property.
\<close>

datatype fuzzySpec =
    ExactURL "bool option"
  | MoreIsBetter
  | CosineSimilarity real string

type_synonym FuzzyParamsSpec = "string \<Rightarrow> fuzzySpec option"

record ScoreResult =
  ok :: bool
  score :: real
  exact :: bool

text \<open>The value of each \<^verbatim>\<open>return { ok: false, score: 0, exact: false }\<close>.\<close>

definition notOk :: ScoreResult where
  "notOk = \<lparr>ok = False, score = 0, exact = False\<rparr>"

text \<open>
  An \<^verbatim>\<open>EmbedFn\<close> is an effect for each text and model. An effect of error type
  \<^verbatim>\<open>never\<close>, as \<^verbatim>\<open>scoreEntry\<close> and \<^verbatim>\<open>matchBestEntry\<close> are, ends in \<open>Inr\<close> its value or
  in \<open>Inl\<close> the message of a defect.

  \<open>catchAll_null\<close> is \<^verbatim>\<open>eff.pipe(Effect.catchAll(() => Effect.succeed(null)))\<close>: the handler
  of \<^verbatim>\<open>catchAll\<close> replaces an expected failure by \<^verbatim>\<open>null\<close> (\<open>None\<close>), and a defect passes it.
\<close>

type_synonym ('e, 'w) EmbedFn = "string \<Rightarrow> string \<Rightarrow> (real list, 'e, 'w) effect"

definition catchAll_null :: "('a, 'e, 'w) effect \<Rightarrow> 'w \<Rightarrow> (string + 'a option) \<times> 'w" where
  "catchAll_null eff w =
     (case eff w of
        (Success a, w') \<Rightarrow> (Inr (Some a), w')
      | (Failure (Fail e), w') \<Rightarrow> (Inr None, w')
      | (Failure (Die d), w') \<Rightarrow> (Inl d, w'))"

text \<open>
  The loop of \<^verbatim>\<open>scoreEntry\<close> over \<^verbatim>\<open>Object.keys(requested)\<close>, with its variables
  \<^verbatim>\<open>score\<close> and \<^verbatim>\<open>exact\<close> (primed here, the plain names being the fields of the
  result). \<^verbatim>\<open>Effect.all\<close> runs the two embeddings one after the other and stops at the
  first that dies.

  The lookup \<^verbatim>\<open>fuzzy[key]\<close> finds the own property of the specification, or else, for a key
  that bears the name of a member of \<^verbatim>\<open>Object.prototype\<close>, that member: a truthy value
  whose \<^verbatim>\<open>type\<close> is none of the three, so that no branch of the loop body is taken and the
  loop goes on to the next key with \<^verbatim>\<open>score\<close> and \<^verbatim>\<open>exact\<close> as they are.
\<close>

fun scoreLoop ::
  "platform \<Rightarrow> Params \<Rightarrow> Params \<Rightarrow> FuzzyParamsSpec \<Rightarrow> ('e, 'w) EmbedFn \<Rightarrow>
     string list \<Rightarrow> real \<Rightarrow> bool \<Rightarrow> 'w \<Rightarrow> (string + ScoreResult) \<times> 'w" where
  "scoreLoop P requested cached fuzzy embedFn [] score' exact' w =
     (Inr \<lparr>ok = True, score = score', exact = exact'\<rparr>, w)"
| "scoreLoop P requested cached fuzzy embedFn (key # keys) score' exact' w =
     (let req = get_field requested key;
          prev = get_field cached key
      in case fuzzy key of
           None \<Rightarrow>
             if key \<in> set Object_prototype_names
             then scoreLoop P requested cached fuzzy embedFn keys score' exact' w
             else if \<not> Equal_equals req prev then (Inr notOk, w)
             else scoreLoop P requested cached fuzzy embedFn keys (score' + 1) exact' w
         | Some (ExactURL excludeHash) \<Rightarrow>
             if \<not> strict_equals (normalizeUrl P req excludeHash) (normalizeUrl P prev excludeHash)
             then (Inr notOk, w)
             else scoreLoop P requested cached fuzzy embedFn keys (score' + 1) exact' w
         | Some MoreIsBetter \<Rightarrow>
             if js_less P prev req then (Inr notOk, w)
             else scoreLoop P requested cached fuzzy embedFn keys (score' + 1)
                    (if \<not> strict_equals prev req then False else exact') w
         | Some (CosineSimilarity threshold model) \<Rightarrow>
             (case catchAll_null (embedFn (String_js P req) model) w of
                (Inl d, w1) \<Rightarrow> (Inl d, w1)
              | (Inr r0, w1) \<Rightarrow>
                  (case catchAll_null (embedFn (String_js P prev) model) w1 of
                     (Inl d, w2) \<Rightarrow> (Inl d, w2)
                   | (Inr r1, w2) \<Rightarrow>
                       (case (r0, r1) of
                          (Some v0, Some v1) \<Rightarrow>
                            (let sim = cosineSimilarity_exact v0 v1
                             in if sim < threshold then (Inr notOk, w2)
                                else scoreLoop P requested cached fuzzy embedFn keys (score' + sim)
                                       (if sim < 1 then False else exact') w2)
                        | _ \<Rightarrow> (Inr notOk, w2)))))"

definition scoreEntry ::
  "platform \<Rightarrow> Params \<Rightarrow> Params \<Rightarrow> FuzzyParamsSpec \<Rightarrow> ('e, 'w) EmbedFn \<Rightarrow>
     'w \<Rightarrow> (string + ScoreResult) \<times> 'w" where
  "scoreEntry P requested cached fuzzy embedFn w =
     scoreLoop P requested cached fuzzy embedFn (Object_keys requested) 0 True w"

section \<open>Choosing the best entry\<close>

record ('e, 'a) CacheEntry =
  params :: Params
  outcome :: "('a, 'e) exit"
  createdAt :: real

datatype CacheHitKind = Miss | Exact | Fuzzy

record CacheHitMeta =
  kind :: CacheHitKind
  hit_score :: real

record ('e, 'a) MatchResult =
  entry :: "('e, 'a) CacheEntry"
  hitMeta :: CacheHitMeta

text \<open>
  The selection loop of \<^verbatim>\<open>matchBestEntry\<close> over the fresh entries. The variable
  \<^verbatim>\<open>best\<close> holds the entry, score and exactness of the best candidate so far, or \<^verbatim>\<open>null\<close>.
  The field \<^verbatim>\<open>score\<close> of the hit metadata is \<open>hit_score\<close> above, \<open>score\<close> being the field
  of the score result.
\<close>

fun bestLoop ::
  "platform \<Rightarrow> Params \<Rightarrow> FuzzyParamsSpec \<Rightarrow> ('e, 'w) EmbedFn \<Rightarrow> ('x, 'a) CacheEntry list \<Rightarrow>
     (('x, 'a) CacheEntry \<times> real \<times> bool) option \<Rightarrow> 'w \<Rightarrow>
     (string + (('x, 'a) CacheEntry \<times> real \<times> bool) option) \<times> 'w" where
  "bestLoop P ps fuzzy embedFn [] best w = (Inr best, w)"
| "bestLoop P ps fuzzy embedFn (e # es) best w =
     (case scoreEntry P ps (params e) fuzzy embedFn w of
        (Inl d, w') \<Rightarrow> (Inl d, w')
      | (Inr scored, w') \<Rightarrow>
          if \<not> ok scored then bestLoop P ps fuzzy embedFn es best w'
          else if (case best of None \<Rightarrow> True | Some (_, bscore, _) \<Rightarrow> score scored > bscore)
          then bestLoop P ps fuzzy embedFn es (Some (e, score scored, exact scored)) w'
          else bestLoop P ps fuzzy embedFn es best w')"

text \<open>
  \<^verbatim>\<open>matchBestEntry(args)\<close>, the fields of \<^verbatim>\<open>args\<close> given one by one; \<^verbatim>\<open>fuzzyParams\<close> is
  optional and defaults to the empty specification. \<open>Inr None\<close> is the result \<^verbatim>\<open>null\<close>.
\<close>

definition matchBestEntry ::
  "platform \<Rightarrow> real \<Rightarrow> real \<Rightarrow> Params \<Rightarrow> ('x, 'a) CacheEntry list \<Rightarrow> FuzzyParamsSpec option \<Rightarrow>
     ('e, 'w) EmbedFn \<Rightarrow> 'w \<Rightarrow> (string + ('x, 'a) MatchResult option) \<times> 'w" where
  "matchBestEntry P now ttl ps entries fuzzyParams embedFn w =
     (let freshEntries = filter (\<lambda>entry. now - createdAt entry \<le> ttl) entries
      in if length freshEntries = 0 then (Inr None, w)
         else
           (case bestLoop P ps (case fuzzyParams of None \<Rightarrow> (\<lambda>key. None) | Some f \<Rightarrow> f)
                   embedFn freshEntries None w of
              (Inl d, w') \<Rightarrow> (Inl d, w')
            | (Inr None, w') \<Rightarrow> (Inr None, w')
            | (Inr (Some (e, bscore, bexact)), w') \<Rightarrow>
                (Inr (Some \<lparr>entry = e,
                            hitMeta = \<lparr>kind = (if bexact then Exact else Fuzzy),
                                       hit_score = bscore\<rparr>\<rparr>), w')))"

section \<open>The embedding memoizer\<close>

text \<open>
  The state of an embeddings service: the map held by \<^verbatim>\<open>cacheRef\<close>, keyed by text and
  model (\<^verbatim>\<open>Data.struct\<close> keys are equal when their fields are), and the state of the world
  the raw provider acts on. \<open>rawCalls\<close> is not in the source: it records each invocation of
  the raw provider, so that invocations can be counted.
\<close>

type_synonym EmbeddingKey = "string \<times> string"

record 'w Embeddings =
  cacheRef :: "EmbeddingKey \<Rightarrow> real list option"
  provider :: 'w
  rawCalls :: "EmbeddingKey list"

definition defaultRawEmbed :: "('e, 'w) EmbedFn" where
  "defaultRawEmbed input model =
     dieMessage ''rawEmbed not implemented - provide a real embedding provider''"

definition makeEmbeddingsService :: "'w \<Rightarrow> 'w Embeddings" where
  "makeEmbeddingsService w = \<lparr>cacheRef = (\<lambda>key. None), provider = w, rawCalls = []\<rparr>"

text \<open>The function \<^verbatim>\<open>embed\<close> of \<^verbatim>\<open>makeEmbeddingsService(rawEmbed)\<close>.\<close>

definition embedMemo ::
  "('e, 'w) EmbedFn \<Rightarrow> string \<Rightarrow> string \<Rightarrow> (real list, 'e, 'w Embeddings) effect" where
  "embedMemo rawEmbed input model s =
     (let key = (input, model)
      in case cacheRef s key of
           Some cached \<Rightarrow> (Success cached, s)
         | None \<Rightarrow>
             (case rawEmbed input model (provider s) of
                (Success vector, w') \<Rightarrow>
                  (Success vector,
                   s\<lparr>cacheRef := (cacheRef s)(key \<mapsto> vector), provider := w',
                     rawCalls := rawCalls s @ [key]\<rparr>)
              | (Failure c, w') \<Rightarrow>
                  (Failure c, s\<lparr>provider := w', rawCalls := rawCalls s @ [key]\<rparr>)))"

section \<open>The entry store and the caching wrapper\<close>

text \<open>
  The state a wrapped function runs in: the map held by the store's \<^verbatim>\<open>mapRef\<close>, from cache
  names to arrays of entries, and the state of the world that the wrapped function and the
  embedding function act on. \<open>trace\<close> is not in the source: it records each read and each
  write of the store and each invocation of the wrapped function.
\<close>

datatype event = StoreGetAll string | StorePut string | FnCall Params

record ('e, 'a, 'w) ServiceState =
  mapRef :: "string \<Rightarrow> ('e, 'a) CacheEntry list option"
  world :: 'w
  trace :: "event list"

definition getAll ::
  "string \<Rightarrow> ('e, 'a, 'w) ServiceState \<Rightarrow> ('e, 'a) CacheEntry list \<times> ('e, 'a, 'w) ServiceState" where
  "getAll name s =
     ((case mapRef s name of None \<Rightarrow> [] | Some es \<Rightarrow> es),
      s\<lparr>trace := trace s @ [StoreGetAll name]\<rparr>)"

definition put ::
  "string \<Rightarrow> ('e, 'a) CacheEntry \<Rightarrow> ('e, 'a, 'w) ServiceState \<Rightarrow> ('e, 'a, 'w) ServiceState" where
  "put name e s =
     (let existing = (case mapRef s name of None \<Rightarrow> [] | Some es \<Rightarrow> es)
      in s\<lparr>mapRef := (mapRef s)(name \<mapsto> existing @ [e]),
           trace := trace s @ [StorePut name]\<rparr>)"

record WithCachingConfig =
  cacheName :: string
  fuzzyParams :: "FuzzyParamsSpec option"
  ttlMillis :: "real option"

definition DEFAULT_TTL_MILLIS :: real where
  "DEFAULT_TTL_MILLIS = 24 * 60 * 60 * 1000"

definition exitToEffect :: "('a, 'e) exit \<Rightarrow> ('a, 'e, 's) effect" where
  "exitToEffect ex = (case ex of Failure c \<Rightarrow> failCause c | Success a \<Rightarrow> succeed a)"

text \<open>
  The function that a wrapper is given is an ordinary function that returns an effect. The
  call \<^verbatim>\<open>fn(params)\<close> followed by the run of the effect it returns has one of two ends:
  \<open>Threw d\<close>, when the call throws before it returns an effect, or \<open>Returned ex\<close>, when it
  returns an effect and the run of this effect ends in the exit \<open>ex\<close>. \<open>returning\<close> is the
  body of a function that returns the given effect, \<open>throwing\<close> that of a function that
  throws.
\<close>

datatype ('a, 'e) invocation = Threw string | Returned "('a, 'e) exit"

type_synonym ('a, 'e, 'w) wrappedFn = "Params \<Rightarrow> 'w \<Rightarrow> ('a, 'e) invocation \<times> 'w"

definition returning :: "('a, 'e, 'w) effect \<Rightarrow> 'w \<Rightarrow> ('a, 'e) invocation \<times> 'w" where
  "returning eff w = (case eff w of (ex, w') \<Rightarrow> (Returned ex, w'))"


text \<open>
  \<^verbatim>\<open>withCaching(fn, config)\<close> of a service built on the given embedding function. The
  wrapped function takes the parameter set; \<open>now\<close> is what \<^verbatim>\<open>currentEpochMillis\<close> reads at
  that call. In \<^verbatim>\<open>yield* Effect.exit(fn(params))\<close> the call \<^verbatim>\<open>fn(params)\<close> is made by the
  generator of the wrapper: when it throws, the wrapper dies with what was thrown, before
  an entry is built or stored; otherwise \<^verbatim>\<open>Effect.exit\<close> runs the returned effect and hands
  its exit over as a value. The service class and \<^verbatim>\<open>makeFuzzyCacheLayer\<close> hold the same
  text twice.
\<close>

definition withCaching ::
  "platform \<Rightarrow> ('x, 'w) EmbedFn \<Rightarrow> ('a, 'e, 'w) wrappedFn \<Rightarrow> WithCachingConfig \<Rightarrow>
     Params \<Rightarrow> real \<Rightarrow> ('a, 'e, ('e, 'a, 'w) ServiceState) effect" where
  "withCaching P embedFn fn config =
     (if (case ttlMillis config of None \<Rightarrow> False | Some t \<Rightarrow> t \<le> 0)
      then (\<lambda>ps now. dieMessage ''WithCachingConfig.ttlMillis must be positive'')
      else (\<lambda>ps now s.
        let ttl = (case ttlMillis config of None \<Rightarrow> DEFAULT_TTL_MILLIS | Some t \<Rightarrow> t);
            (entries, s1) = getAll (cacheName config) s
        in case matchBestEntry P now ttl ps entries (fuzzyParams config) embedFn (world s1) of
             (Inl d, w') \<Rightarrow> (Failure (Die d), s1\<lparr>world := w'\<rparr>)
           | (Inr (Some matchResult), w') \<Rightarrow>
               exitToEffect (outcome (entry matchResult)) (s1\<lparr>world := w'\<rparr>)
           | (Inr None, w') \<Rightarrow>
               (case fn ps w' of
                  (Threw d, w'') \<Rightarrow>
                    (Failure (Die d), s1\<lparr>world := w'', trace := trace s1 @ [FnCall ps]\<rparr>)
                | (Returned ex, w'') \<Rightarrow>
                    (let s2 = s1\<lparr>world := w'', trace := trace s1 @ [FnCall ps]\<rparr>;
                         e = \<lparr>params = ps, outcome = ex, createdAt = now\<rparr>;
                         s3 = put (cacheName config) e s2
                     in exitToEffect ex s3))))"

text \<open>
  \<^verbatim>\<open>withCachingMeta(fn, config)\<close>: the value together with the hit metadata (the fields
  \<^verbatim>\<open>value\<close>, here \<open>val\<close>, and \<^verbatim>\<open>cache\<close> of the source). A replayed or fresh failure fails
  the call before the pair is built.
\<close>

record 'a WithMeta =
  val :: 'a
  cache :: CacheHitMeta

definition withMeta :: "CacheHitMeta \<Rightarrow> ('a, 'e) exit \<times> 's \<Rightarrow> ('a WithMeta, 'e) exit \<times> 's" where
  "withMeta m r =
     (case r of
        (Success a, s) \<Rightarrow> (Success \<lparr>val = a, cache = m\<rparr>, s)
      | (Failure c, s) \<Rightarrow> (Failure c, s))"

definition withCachingMeta ::
  "platform \<Rightarrow> ('x, 'w) EmbedFn \<Rightarrow> ('a, 'e, 'w) wrappedFn \<Rightarrow> WithCachingConfig \<Rightarrow>
     Params \<Rightarrow> real \<Rightarrow> ('a WithMeta, 'e, ('e, 'a, 'w) ServiceState) effect" where
  "withCachingMeta P embedFn fn config =
     (if (case ttlMillis config of None \<Rightarrow> False | Some t \<Rightarrow> t \<le> 0)
      then (\<lambda>ps now. dieMessage ''WithCachingConfig.ttlMillis must be positive'')
      else (\<lambda>ps now s.
        let ttl = (case ttlMillis config of None \<Rightarrow> DEFAULT_TTL_MILLIS | Some t \<Rightarrow> t);
            (entries, s1) = getAll (cacheName config) s
        in case matchBestEntry P now ttl ps entries (fuzzyParams config) embedFn (world s1) of
             (Inl d, w') \<Rightarrow> (Failure (Die d), s1\<lparr>world := w'\<rparr>)
           | (Inr (Some matchResult), w') \<Rightarrow>
               withMeta (hitMeta matchResult)
                 (exitToEffect (outcome (entry matchResult)) (s1\<lparr>world := w'\<rparr>))
           | (Inr None, w') \<Rightarrow>
               (case fn ps w' of
                  (Threw d, w'') \<Rightarrow>
                    (Failure (Die d), s1\<lparr>world := w'', trace := trace s1 @ [FnCall ps]\<rparr>)
                | (Returned ex, w'') \<Rightarrow>
                    (let s2 = s1\<lparr>world := w'', trace := trace s1 @ [FnCall ps]\<rparr>;
                         e = \<lparr>params = ps, outcome = ex, createdAt = now\<rparr>;
                         s3 = put (cacheName config) e s2
                     in withMeta \<lparr>kind = Miss, hit_score = 0\<rparr> (exitToEffect ex s3)))))"

section \<open>Observing runs\<close>



fun scoreAll ::
  "platform \<Rightarrow> Params \<Rightarrow> FuzzyParamsSpec \<Rightarrow> ('e, 'w) EmbedFn \<Rightarrow> ('x, 'a) CacheEntry list \<Rightarrow>
     'w \<Rightarrow> (string + ScoreResult list) \<times> 'w" where
  "scoreAll P ps fuzzy embedFn [] w = (Inr [], w)"
| "scoreAll P ps fuzzy embedFn (e # es) w =
     (case scoreEntry P ps (params e) fuzzy embedFn w of
        (Inl d, w') \<Rightarrow> (Inl d, w')
      | (Inr scored, w') \<Rightarrow>
          (case scoreAll P ps fuzzy embedFn es w' of
             (Inl d, w'') \<Rightarrow> (Inl d, w'')
           | (Inr rest, w'') \<Rightarrow> (Inr (scored # rest), w'')))"



section \<open>Inputs for the examples\<close>

text \<open>
  A platform for the concrete examples below: its URL parser accepts the strings that start
  with \<^verbatim>\<open>https://\<close> and leaves them unchanged, as the platform does for a URL that is
  already in normal form.
\<close>

definition examplePlatform :: platform where
  "examplePlatform =
     \<lparr>parse_base = (\<lambda>s. if take 8 s = ''https://'' then Some s else None),
      to_string = (\<lambda>v. ''[object Object]''),
      less_than = (\<lambda>v w. False)\<rparr>"

text \<open>The embedding function of the matcher's tests: the vector \<^verbatim>\<open>[text.length, 0]\<close>.\<close>

definition fakeEmbed :: "(unit, unit) EmbedFn" where
  "fakeEmbed input model = succeed [real (length input), 0]"

text \<open>
  The failing embedding function of the matcher's tests: an expected failure for the text
  \<^verbatim>\<open>bad-text\<close>, and the vector \<^verbatim>\<open>[text.length, 0]\<close> for any other.
\<close>

definition failingEmbed :: "(string, unit) EmbedFn" where
  "failingEmbed input model =
     (if input = ''bad-text'' then failCause (Fail ''Embedding failed'')
      else succeed [real (length input), 0])"


definition failsForBad :: "(string, string, unit) wrappedFn" where
  "failsForBad ps =
     returning
       (if get_field ps ''id'' = Str ''bad'' then failCause (Fail ''boom'') else succeed ''ok'')"






section \<open>Comparisons of numbers and strings\<close>



lemma strict_equals_Str: "strict_equals (Str a) (Str b) = (a = b)"
  by (simp add: strict_equals_def)


lemma Equal_equals_NaN: "\<not> Equal_equals NaN v"
  by (simp add: Equal_equals_def strict_equals_def)


section \<open>Properties of the scoring of one field\<close>

text \<open>
  Claim C5. At a field under \<^verbatim>\<open>MoreIsBetter\<close> with requested number \<open>r\<close> and stored number
  \<open>c\<close>: when \<open>r \<le> c\<close> the loop goes on to the remaining fields with the score raised by 1
  and with the exactness kept exactly when \<open>c = r\<close>; when \<open>r > c\<close> the candidate is
  disqualified at once. For a parameter set of that one field the whole score follows.
\<close>

theorem moreIsBetter_field:
  assumes "fuzzy key = Some MoreIsBetter"
    and "get_field requested key = Num r"
    and "get_field cached key = Num c"
  shows "scoreLoop P requested cached fuzzy embedFn (key # keys) s e w =
           (if r \<le> c
            then scoreLoop P requested cached fuzzy embedFn keys (s + 1) (e \<and> c = r) w
            else (Inr \<lparr>ok = False, score = 0, exact = False\<rparr>, w)) \<and>
         scoreEntry P [(key, Num r)] [(key, Num c)] fuzzy embedFn w =
           (if r \<le> c then (Inr \<lparr>ok = True, score = 1, exact = (c = r)\<rparr>, w)
            else (Inr \<lparr>ok = False, score = 0, exact = False\<rparr>, w))"
  using assms
  by (auto simp: js_less_def is_number_def number_less_def strict_equals_def notOk_def
        scoreEntry_def Object_keys_def get_field_def)

theorem moreIsBetter_field_witness:
  "scoreEntry examplePlatform [(''level'', Num 1)] [(''level'', Num 3)]
     (\<lambda>key. if key = ''level'' then Some MoreIsBetter else None) fakeEmbed () =
     (Inr \<lparr>ok = True, score = 1, exact = False\<rparr>, ()) \<and>
   scoreEntry examplePlatform [(''level'', Num 3)] [(''level'', Num 1)]
     (\<lambda>key. if key = ''level'' then Some MoreIsBetter else None) fakeEmbed () =
     (Inr \<lparr>ok = False, score = 0, exact = False\<rparr>, ())"
  using moreIsBetter_field [of "\<lambda>key. if key = ''level'' then Some MoreIsBetter else None"
      "''level''" "[(''level'', Num 1)]" 1 "[(''level'', Num 3)]" 3 examplePlatform fakeEmbed
      "[]" 0 True "()"]
    moreIsBetter_field [of "\<lambda>key. if key = ''level'' then Some MoreIsBetter else None"
      "''level''" "[(''level'', Num 3)]" 3 "[(''level'', Num 1)]" 1 examplePlatform fakeEmbed
      "[]" 0 True "()"]
  by (simp add: get_field_def)

section \<open>Freshness of the entries\<close>







section \<open>The configuration check\<close>

text \<open>
  Claim C4. When \<^verbatim>\<open>ttlMillis\<close> is defined and not positive, every call of the function
  wrapped by \<^verbatim>\<open>withCaching\<close> or by \<^verbatim>\<open>withCachingMeta\<close> dies with the message of the
  configuration error, whatever its parameters, the time and the state. The state comes
  back as it was: the store is neither read nor written and the wrapped function is not
  invoked, the trace having no new event.
\<close>

theorem nonpositive_ttl_dies:
  assumes "ttlMillis config = Some t" and "t \<le> 0"
  shows "withCaching P embedFn fn config ps now s =
           (Failure (Die ''WithCachingConfig.ttlMillis must be positive''), s) \<and>
         withCachingMeta P embedFn fn config ps now s =
           (Failure (Die ''WithCachingConfig.ttlMillis must be positive''), s)"
  using assms by (simp add: withCaching_def withCachingMeta_def dieMessage_def)

theorem nonpositive_ttl_dies_witness:
  "withCaching examplePlatform fakeEmbed (\<lambda>ps. returning (succeed ''computed''))
     \<lparr>cacheName = ''c'', fuzzyParams = None, ttlMillis = Some 0\<rparr> [(''x'', Num 5)] 1000
     \<lparr>mapRef = (\<lambda>name. None), world = (), trace = []\<rparr> =
     (Failure (Die ''WithCachingConfig.ttlMillis must be positive'') :: (string, unit) exit,
      \<lparr>mapRef = (\<lambda>name. None), world = (), trace = []\<rparr>) \<and>
   withCachingMeta examplePlatform fakeEmbed (\<lambda>ps. returning (succeed ''computed''))
     \<lparr>cacheName = ''c'', fuzzyParams = None, ttlMillis = Some 0\<rparr> [(''x'', Num 5)] 1000
     \<lparr>mapRef = (\<lambda>name. None), world = (), trace = []\<rparr> =
     (Failure (Die ''WithCachingConfig.ttlMillis must be positive'')
        :: (string WithMeta, unit) exit,
      \<lparr>mapRef = (\<lambda>name. None), world = (), trace = []\<rparr>)"
  using nonpositive_ttl_dies [of "\<lparr>cacheName = ''c'', fuzzyParams = None, ttlMillis = Some 0\<rparr>"
      0 examplePlatform fakeEmbed "\<lambda>ps. returning (succeed ''computed'')" "[(''x'', Num 5)]" 1000
      "\<lparr>mapRef = (\<lambda>name. None), world = (), trace = []\<rparr>"]
  by simp

section \<open>Memoized embeddings\<close>

text \<open>
  Claim C8. When the key of a text and model is not in the cache, as in a service just
  made, and the raw provider succeeds with a vector, the first call of \<^verbatim>\<open>embed\<close> invokes
  the provider once, stores the vector under the key and returns it; the second call
  returns the stored vector and leaves the state as it is, so the provider is not invoked
  again. Any call that finds its key in the cache returns the stored vector in an unchanged
  state.
\<close>

theorem embed_invokes_provider_once:
  assumes "cacheRef s (text, model) = None"
    and "rawEmbed text model (provider s) = (Success v, w')"
  shows "(let s1 = s\<lparr>cacheRef := (cacheRef s)((text, model) \<mapsto> v), provider := w',
                     rawCalls := rawCalls s @ [(text, model)]\<rparr>
          in embedMemo rawEmbed text model s = (Success v, s1) \<and>
             embedMemo rawEmbed text model s1 = (Success v, s1)) \<and>
         (\<forall>s' v'. cacheRef s' (text, model) = Some v' \<longrightarrow>
            embedMemo rawEmbed text model s' = (Success v', s'))"
  using assms by (simp add: embedMemo_def Let_def)

theorem embed_invokes_provider_once_witness:
  "embedMemo fakeEmbed ''hello'' ''test'' (makeEmbeddingsService ()) =
     (Success [5, 0],
      \<lparr>cacheRef = (\<lambda>key. None)((''hello'', ''test'') \<mapsto> [5, 0]), provider = (),
        rawCalls = [(''hello'', ''test'')]\<rparr>) \<and>
   embedMemo fakeEmbed ''hello'' ''test''
     \<lparr>cacheRef = (\<lambda>key. None)((''hello'', ''test'') \<mapsto> [5, 0]), provider = (),
       rawCalls = [(''hello'', ''test'')]\<rparr> =
     (Success [5, 0],
      \<lparr>cacheRef = (\<lambda>key. None)((''hello'', ''test'') \<mapsto> [5, 0]), provider = (),
        rawCalls = [(''hello'', ''test'')]\<rparr>)"
  using embed_invokes_provider_once [of "makeEmbeddingsService ()" "''hello''" "''test''"
      fakeEmbed "[5, 0]" "()"]
  by (simp add: makeEmbeddingsService_def fakeEmbed_def succeed_def Let_def)

section \<open>URLs that differ in their fragment\<close>

lemma fragment_suffix_inj:
  "(case fa of None \<Rightarrow> [] | Some f \<Rightarrow> CHR ''#'' # f) =
   (case fb of None \<Rightarrow> [] | Some f \<Rightarrow> CHR ''#'' # f) \<longleftrightarrow> fa = fb"
  by (cases fa; cases fb) simp_all

lemma normalizeUrl_parsed:
  assumes "parse_base P (before_hash (url_preprocess a)) = Some nb"
  shows "normalizeUrl P (Str a) excludeHash =
           Str (nb @ (if excludeHash = Some True then []
                      else (case map_option encode_fragment (after_hash (url_preprocess a)) of
                              None \<Rightarrow> [] | Some f \<Rightarrow> CHR ''#'' # f)))"
  using assms
  by (simp add: normalizeUrl_def new_URL_def String_js_def url_toString_def Let_def)

lemma normalizeUrl_unparsed:
  assumes "parse_base P (before_hash (url_preprocess a)) = None"
  shows "normalizeUrl P (Str a) excludeHash = Str a"
  using assms
  by (simp add: normalizeUrl_def new_URL_def String_js_def Let_def)

text \<open>
  Claim C6, as amended. Let the requested and the stored value of a field under
  \<^verbatim>\<open>ExactURL\<close> be strings \<open>a\<close> and \<open>b\<close> that are the same before the fragment and that
  parse as URLs. With \<^verbatim>\<open>excludeHash: true\<close> the field never disqualifies the candidate and
  adds 1 to the score. With \<^verbatim>\<open>excludeHash\<close> false or unset it disqualifies the candidate
  exactly when the fragments differ after the percent-encoding of the URL parser: identical
  strings always pass, and so do different strings whose fragments are encoded alike.
\<close>

theorem exactURL_fragment:
  assumes "fuzzy key = Some (ExactURL excludeHash)"
    and "get_field requested key = Str a"
    and "get_field cached key = Str b"
    and "before_hash (url_preprocess a) = before_hash (url_preprocess b)"
    and "parse_base P (before_hash (url_preprocess a)) = Some nb"
  shows "scoreLoop P requested cached fuzzy embedFn (key # keys) s e w =
           (if excludeHash = Some True \<or>
               map_option encode_fragment (after_hash (url_preprocess a)) =
               map_option encode_fragment (after_hash (url_preprocess b))
            then scoreLoop P requested cached fuzzy embedFn keys (s + 1) e w
            else (Inr \<lparr>ok = False, score = 0, exact = False\<rparr>, w))"
proof -
  let ?fa = "map_option encode_fragment (after_hash (url_preprocess a))"
  let ?fb = "map_option encode_fragment (after_hash (url_preprocess b))"
  have pb: "parse_base P (before_hash (url_preprocess b)) = Some nb"
    using assms(4,5) by simp
  have eq: "strict_equals (normalizeUrl P (Str a) excludeHash) (normalizeUrl P (Str b) excludeHash)
              \<longleftrightarrow> excludeHash = Some True \<or> ?fa = ?fb"
    unfolding normalizeUrl_parsed [OF assms(5)] normalizeUrl_parsed [OF pb] strict_equals_def
    using fragment_suffix_inj [of ?fa ?fb] by auto
  have "scoreLoop P requested cached fuzzy embedFn (key # keys) s e w =
          (if \<not> strict_equals (normalizeUrl P (Str a) excludeHash)
                  (normalizeUrl P (Str b) excludeHash)
           then (Inr notOk, w)
           else scoreLoop P requested cached fuzzy embedFn keys (s + 1) e w)"
    using assms(1-3) by simp
  then show ?thesis unfolding eq by (simp add: notOk_def)
qed

theorem exactURL_fragment_witness:
  "scoreEntry examplePlatform [(''url'', Str ''https://foo.com/page#section1'')]
     [(''url'', Str ''https://foo.com/page#section2'')]
     (\<lambda>key. if key = ''url'' then Some (ExactURL (Some True)) else None) fakeEmbed () =
     (Inr \<lparr>ok = True, score = 1, exact = True\<rparr>, ()) \<and>
   scoreEntry examplePlatform [(''url'', Str ''https://foo.com/page#section1'')]
     [(''url'', Str ''https://foo.com/page#section2'')]
     (\<lambda>key. if key = ''url'' then Some (ExactURL None) else None) fakeEmbed () =
     (Inr \<lparr>ok = False, score = 0, exact = False\<rparr>, ())"
proof -
  let ?a = "''https://foo.com/page#section1''"
  let ?b = "''https://foo.com/page#section2''"
  have pa: "url_preprocess ?a = ?a" and pb: "url_preprocess ?b = ?b"
    by (simp_all add: url_preprocess_def is_c0_or_space_def is_tab_or_newline_def)
  have same: "before_hash (url_preprocess ?a) = before_hash (url_preprocess ?b)"
    unfolding pa pb by (simp add: before_hash_def)
  have parses: "parse_base examplePlatform (before_hash (url_preprocess ?a)) =
      Some ''https://foo.com/page''"
    unfolding pa by (simp add: before_hash_def examplePlatform_def)
  have frags: "map_option encode_fragment (after_hash (url_preprocess ?a)) \<noteq>
      map_option encode_fragment (after_hash (url_preprocess ?b))"
    unfolding pa pb
    by (simp add: after_hash_def encode_fragment_def in_fragment_encode_set_def)
  have excl: "scoreLoop examplePlatform [(''url'', Str ?a)] [(''url'', Str ?b)]
      (\<lambda>key. if key = ''url'' then Some (ExactURL (Some True)) else None) fakeEmbed
      [''url''] 0 True () = (Inr \<lparr>ok = True, score = 1, exact = True\<rparr>, ())"
    using exactURL_fragment [of "\<lambda>key. if key = ''url'' then Some (ExactURL (Some True)) else None"
        "''url''" "Some True" "[(''url'', Str ?a)]" ?a "[(''url'', Str ?b)]" ?b examplePlatform
        "''https://foo.com/page''" fakeEmbed "[]" 0 True "()"] same parses
    by (simp add: get_field_def)
  have keep: "scoreLoop examplePlatform [(''url'', Str ?a)] [(''url'', Str ?b)]
      (\<lambda>key. if key = ''url'' then Some (ExactURL None) else None) fakeEmbed
      [''url''] 0 True () = (Inr \<lparr>ok = False, score = 0, exact = False\<rparr>, ())"
    using exactURL_fragment [of "\<lambda>key. if key = ''url'' then Some (ExactURL None) else None"
        "''url''" None "[(''url'', Str ?a)]" ?a "[(''url'', Str ?b)]" ?b examplePlatform
        "''https://foo.com/page''" fakeEmbed "[]" 0 True "()"] same parses frags
    by (simp add: get_field_def)
  from excl keep show ?thesis by (simp add: scoreEntry_def Object_keys_def)
qed

text \<open>
  The fragments \<^verbatim>\<open>a b\<close> and \<^verbatim>\<open>a%20b\<close> are encoded alike, so two strings that differ
  only in their fragment and are not identical are equal under \<^verbatim>\<open>excludeHash: false\<close> and
  under an unset \<^verbatim>\<open>excludeHash\<close>.
\<close>

lemma normalizeUrl_space_example:
  "normalizeUrl examplePlatform (Str ''https://example.com/page#a b'') xh =
     (if xh = Some True then Str ''https://example.com/page''
      else Str ''https://example.com/page#a%20b'')"
  by (simp add: normalizeUrl_def new_URL_def String_js_def url_toString_def Let_def
        examplePlatform_def before_hash_def after_hash_def url_preprocess_def
        is_c0_or_space_def is_tab_or_newline_def encode_fragment_def
        in_fragment_encode_set_def percent_encode_def hex_digit_def)

lemma normalizeUrl_encoded_example:
  "normalizeUrl examplePlatform (Str ''https://example.com/page#a%20b'') xh =
     (if xh = Some True then Str ''https://example.com/page''
      else Str ''https://example.com/page#a%20b'')"
  by (simp add: normalizeUrl_def new_URL_def String_js_def url_toString_def Let_def
        examplePlatform_def before_hash_def after_hash_def url_preprocess_def
        is_c0_or_space_def is_tab_or_newline_def encode_fragment_def
        in_fragment_encode_set_def percent_encode_def hex_digit_def)

theorem exactURL_not_bytewise_counterexample:
  "''https://example.com/page#a b'' \<noteq> ''https://example.com/page#a%20b'' \<and>
   before_hash (url_preprocess ''https://example.com/page#a b'') =
     before_hash (url_preprocess ''https://example.com/page#a%20b'') \<and>
   scoreEntry examplePlatform [(''url'', Str ''https://example.com/page#a b'')]
     [(''url'', Str ''https://example.com/page#a%20b'')]
     (\<lambda>key. if key = ''url'' then Some (ExactURL (Some False)) else None) fakeEmbed () =
     (Inr \<lparr>ok = True, score = 1, exact = True\<rparr>, ()) \<and>
   scoreEntry examplePlatform [(''url'', Str ''https://example.com/page#a b'')]
     [(''url'', Str ''https://example.com/page#a%20b'')]
     (\<lambda>key. if key = ''url'' then Some (ExactURL None) else None) fakeEmbed () =
     (Inr \<lparr>ok = True, score = 1, exact = True\<rparr>, ())"
proof (intro conjI)
  show "''https://example.com/page#a b'' \<noteq> ''https://example.com/page#a%20b''"
    by simp
  show "before_hash (url_preprocess ''https://example.com/page#a b'') =
     before_hash (url_preprocess ''https://example.com/page#a%20b'')"
    by (simp add: before_hash_def url_preprocess_def is_c0_or_space_def is_tab_or_newline_def)
  show "scoreEntry examplePlatform [(''url'', Str ''https://example.com/page#a b'')]
     [(''url'', Str ''https://example.com/page#a%20b'')]
     (\<lambda>key. if key = ''url'' then Some (ExactURL (Some False)) else None) fakeEmbed () =
     (Inr \<lparr>ok = True, score = 1, exact = True\<rparr>, ())"
    by (simp add: scoreEntry_def Object_keys_def get_field_def normalizeUrl_space_example
          normalizeUrl_encoded_example strict_equals_def)
  show "scoreEntry examplePlatform [(''url'', Str ''https://example.com/page#a b'')]
     [(''url'', Str ''https://example.com/page#a%20b'')]
     (\<lambda>key. if key = ''url'' then Some (ExactURL None) else None) fakeEmbed () =
     (Inr \<lparr>ok = True, score = 1, exact = True\<rparr>, ())"
    by (simp add: scoreEntry_def Object_keys_def get_field_def normalizeUrl_space_example
          normalizeUrl_encoded_example strict_equals_def)
qed

section \<open>The entry selected among equal scores\<close>

lemma scoreAll_Cons_Inr:
  assumes "scoreAll P ps fz embedFn (e # es) w = (Inr scores, w')"
  obtains scored w1 rest where "scoreEntry P ps (params e) fz embedFn w = (Inr scored, w1)"
    and "scoreAll P ps fz embedFn es w1 = (Inr rest, w')"
    and "scores = scored # rest"
  using assms by (auto split: prod.splits sum.splits)


lemma bestLoop_selects:
  assumes "scoreAll P ps fz embedFn es w = (Inr scores, w')"
  shows "\<exists>r. bestLoop P ps fz embedFn es best w = (Inr r, w') \<and>
           ((r = best \<and>
             (\<forall>j<length scores. ok (scores ! j) \<longrightarrow>
                (\<exists>b. best = Some b \<and> score (scores ! j) \<le> fst (snd b)))) \<or>
            (\<exists>i<length scores.
               r = Some (es ! i, score (scores ! i), exact (scores ! i)) \<and>
               ok (scores ! i) \<and>
               (\<forall>b. best = Some b \<longrightarrow> fst (snd b) < score (scores ! i)) \<and>
               (\<forall>j<length scores. ok (scores ! j) \<longrightarrow> score (scores ! j) \<le> score (scores ! i)) \<and>
               (\<forall>j<i. ok (scores ! j) \<longrightarrow> score (scores ! j) < score (scores ! i))))"
  using assms
proof (induction es arbitrary: w scores best)
  case Nil
  then show ?case by simp
next
  case (Cons e es)
  from Cons.prems obtain scored w1 rest
    where se: "scoreEntry P ps (params e) fz embedFn w = (Inr scored, w1)"
      and sa: "scoreAll P ps fz embedFn es w1 = (Inr rest, w')"
      and sc: "scores = scored # rest"
    by (rule scoreAll_Cons_Inr)
  let ?take = "ok scored \<and> (case best of None \<Rightarrow> True | Some (_, bscore, _) \<Rightarrow> score scored > bscore)"
  let ?best' = "if ?take then Some (e, score scored, exact scored) else best"
  have step: "bestLoop P ps fz embedFn (e # es) best w = bestLoop P ps fz embedFn es ?best' w1"
    using se by simp
  from Cons.IH [OF sa, of ?best'] obtain r
    where run: "bestLoop P ps fz embedFn es ?best' w1 = (Inr r, w')"
      and sel: "(r = ?best' \<and>
             (\<forall>j<length rest. ok (rest ! j) \<longrightarrow>
                (\<exists>b. ?best' = Some b \<and> score (rest ! j) \<le> fst (snd b)))) \<or>
            (\<exists>i<length rest.
               r = Some (es ! i, score (rest ! i), exact (rest ! i)) \<and>
               ok (rest ! i) \<and>
               (\<forall>b. ?best' = Some b \<longrightarrow> fst (snd b) < score (rest ! i)) \<and>
               (\<forall>j<length rest. ok (rest ! j) \<longrightarrow> score (rest ! j) \<le> score (rest ! i)) \<and>
               (\<forall>j<i. ok (rest ! j) \<longrightarrow> score (rest ! j) < score (rest ! i)))"
    by blast
  let ?Left = "\<lambda>r (best :: (('c, 'd) CacheEntry \<times> real \<times> bool) option) scores.
      r = best \<and> (\<forall>j<length scores. ok (scores ! j) \<longrightarrow>
                (\<exists>b. best = Some b \<and> score (scores ! j) \<le> fst (snd b)))"
  let ?Right = "\<lambda>r (best :: (('c, 'd) CacheEntry \<times> real \<times> bool) option) es scores i.
      i < length scores \<and>
      r = Some (es ! i, score (scores ! i), exact (scores ! i)) \<and>
      ok (scores ! i) \<and>
      (\<forall>b. best = Some b \<longrightarrow> fst (snd b) < score (scores ! i)) \<and>
      (\<forall>j<length scores. ok (scores ! j) \<longrightarrow> score (scores ! j) \<le> score (scores ! i)) \<and>
      (\<forall>j<i. ok (scores ! j) \<longrightarrow> score (scores ! j) < score (scores ! i))"
  have goal: "?Left r best (scored # rest) \<or> (\<exists>i. ?Right r best (e # es) (scored # rest) i)"
  proof (cases ?take)
    case True
    then have b': "?best' = Some (e, score scored, exact scored)" by (rule if_P)
    have below: "\<forall>b. best = Some b \<longrightarrow> fst (snd b) < score scored"
      using True by (auto split: option.splits)
    from sel show ?thesis
    proof (elim disjE exE conjE)
      assume r: "r = ?best'"
        and le: "\<forall>j<length rest. ok (rest ! j) \<longrightarrow>
                (\<exists>b. ?best' = Some b \<and> score (rest ! j) \<le> fst (snd b))"
      have "?Right r best (e # es) (scored # rest) 0"
        using r b' True below le
        by (auto simp: less_Suc_eq_0_disj)
      then show ?thesis by blast
    next
      fix i
      assume i: "i < length rest"
        and r: "r = Some (es ! i, score (rest ! i), exact (rest ! i))"
        and oki: "ok (rest ! i)"
        and above: "\<forall>b. ?best' = Some b \<longrightarrow> fst (snd b) < score (rest ! i)"
        and le: "\<forall>j<length rest. ok (rest ! j) \<longrightarrow> score (rest ! j) \<le> score (rest ! i)"
        and lt: "\<forall>j<i. ok (rest ! j) \<longrightarrow> score (rest ! j) < score (rest ! i)"
      from above b' have gt: "score scored < score (rest ! i)" by simp
      have "?Right r best (e # es) (scored # rest) (Suc i)"
        using i r oki gt below le lt
        by (auto simp: less_Suc_eq_0_disj)
      then show ?thesis by blast
    qed
  next
    case False
    then have b': "?best' = best" by (rule if_not_P)
    have covered: "ok scored \<longrightarrow> (\<exists>b. best = Some b \<and> score scored \<le> fst (snd b))"
      using False by (auto split: option.splits)
    from sel show ?thesis
    proof (elim disjE exE conjE)
      assume r: "r = ?best'"
        and le: "\<forall>j<length rest. ok (rest ! j) \<longrightarrow>
                (\<exists>b. ?best' = Some b \<and> score (rest ! j) \<le> fst (snd b))"
      have "?Left r best (scored # rest)"
        using r le covered unfolding b'
        by (auto simp: less_Suc_eq_0_disj)
      then show ?thesis by blast
    next
      fix i
      assume i: "i < length rest"
        and r: "r = Some (es ! i, score (rest ! i), exact (rest ! i))"
        and oki: "ok (rest ! i)"
        and above: "\<forall>b. ?best' = Some b \<longrightarrow> fst (snd b) < score (rest ! i)"
        and le: "\<forall>j<length rest. ok (rest ! j) \<longrightarrow> score (rest ! j) \<le> score (rest ! i)"
        and lt: "\<forall>j<i. ok (rest ! j) \<longrightarrow> score (rest ! j) < score (rest ! i)"
      have gt: "ok scored \<longrightarrow> score scored < score (rest ! i)"
        using covered above unfolding b' by fastforce
      have "?Right r best (e # es) (scored # rest) (Suc i)"
        using i r oki gt above le lt unfolding b'
        by (auto simp: less_Suc_eq_0_disj)
      then show ?thesis by blast
    qed
  qed
  have "bestLoop P ps fz embedFn (e # es) best w = (Inr r, w')"
    using step run by simp
  with goal show ?case unfolding sc by blast
qed



section \<open>Failures of the embedding function\<close>

lemma catchAll_null_no_defect:
  assumes "\<forall>d v'. eff v \<noteq> (Failure (Die d), v')"
  shows "\<exists>r v'. catchAll_null eff v = (Inr r, v')"
proof (cases "eff v")
  case (Pair ex v')
  with assms show ?thesis
    by (cases ex) (auto simp: catchAll_null_def split: cause.splits)
qed

lemma scoreLoop_no_defect:
  assumes "\<forall>text model v d v'. embedFn text model v \<noteq> (Failure (Die d), v')"
  shows "\<exists>r w'. scoreLoop P requested cached fuzzy embedFn keys s e w = (Inr r, w')"
proof (induction keys arbitrary: s e w)
  case Nil
  show ?case by simp
next
  case (Cons key keys)
  show ?case
  proof (cases "fuzzy key")
    case None
    with Cons.IH show ?thesis by (simp add: Let_def)
  next
    case (Some spec)
    show ?thesis
    proof (cases spec)
      case (ExactURL xh)
      with Some Cons.IH show ?thesis by (simp add: Let_def)
    next
      case MoreIsBetter
      with Some Cons.IH show ?thesis by (simp add: Let_def)
    next
      case (CosineSimilarity th m)
      let ?req = "String_js P (get_field requested key)"
      let ?prev = "String_js P (get_field cached key)"
      from assms have "\<forall>d v'. embedFn ?req m w \<noteq> (Failure (Die d), v')" by blast
      from catchAll_null_no_defect [of "embedFn ?req m" w, OF this] obtain r0 w1
        where c0: "catchAll_null (embedFn ?req m) w = (Inr r0, w1)" by blast
      from assms have "\<forall>d v'. embedFn ?prev m w1 \<noteq> (Failure (Die d), v')" by blast
      from catchAll_null_no_defect [of "embedFn ?prev m" w1, OF this] obtain r1 w2
        where c1: "catchAll_null (embedFn ?prev m) w1 = (Inr r1, w2)" by blast
      show ?thesis
      proof (cases "\<exists>v0 v1. r0 = Some v0 \<and> r1 = Some v1 \<and> \<not> cosineSimilarity_exact v0 v1 < th")
        case True
        then obtain v0 v1 where v: "r0 = Some v0" "r1 = Some v1"
          and ge: "\<not> cosineSimilarity_exact v0 v1 < th" by blast
        from Cons.IH [of "s + cosineSimilarity_exact v0 v1"
            "if cosineSimilarity_exact v0 v1 < 1 then False else e" w2]
        show ?thesis using Some CosineSimilarity c0 c1 v ge by (simp add: Let_def)
      next
        case False
        then have "scoreLoop P requested cached fuzzy embedFn (key # keys) s e w =
            (Inr notOk, w2)"
          using Some CosineSimilarity c0 c1
          by (cases r0; cases r1) (auto simp: Let_def)
        then show ?thesis by blast
      qed
    qed
  qed
qed

lemma scoreAll_no_defect:
  assumes "\<forall>text model v d v'. embedFn text model v \<noteq> (Failure (Die d), v')"
  shows "\<exists>scores w'. scoreAll P ps fuzzy embedFn es w = (Inr scores, w')"
proof (induction es arbitrary: w)
  case Nil
  show ?case by simp
next
  case (Cons e es)
  from scoreLoop_no_defect [OF assms] obtain scored w1
    where "scoreEntry P ps (params e) fuzzy embedFn w = (Inr scored, w1)"
    unfolding scoreEntry_def by blast
  moreover from Cons.IH obtain rest w2
    where "scoreAll P ps fuzzy embedFn es w1 = (Inr rest, w2)" by blast
  ultimately show ?case by simp
qed

lemma matchBestEntry_of_scores:
  assumes "scoreAll P ps (case fz of None \<Rightarrow> (\<lambda>key. None) | Some f \<Rightarrow> f) embedFn
             (filter (\<lambda>e. now - createdAt e \<le> ttl) entries) w = (Inr scores, w')"
  shows "\<exists>r. matchBestEntry P now ttl ps entries fz embedFn w = (Inr r, w') \<and>
           ((\<forall>s\<in>set scores. \<not> ok s) \<longrightarrow> r = None)"
proof -
  let ?fresh = "filter (\<lambda>e. now - createdAt e \<le> ttl) entries"
  let ?f = "case fz of None \<Rightarrow> (\<lambda>key. None) | Some f \<Rightarrow> f"
  from bestLoop_selects [OF assms, of None] obtain r
    where run: "bestLoop P ps ?f embedFn ?fresh None w = (Inr r, w')"
      and sel: "r = None \<or> (\<exists>i<length scores. ok (scores ! i))"
    by auto
  have empty: "?fresh = [] \<Longrightarrow> w' = w"
    using assms by simp
  from sel have none: "(\<forall>s\<in>set scores. \<not> ok s) \<longrightarrow> r = None"
    by (auto simp: all_set_conv_all_nth)
  show ?thesis
  proof (cases r)
    case None
    with run empty show ?thesis
      by (cases "?fresh = []") (auto simp: matchBestEntry_def Let_def)
  next
    case (Some b)
    with run empty none show ?thesis
      by (cases "?fresh = []"; cases b) (auto simp: matchBestEntry_def Let_def)
  qed
qed

lemma cosine_field_failure:
  assumes "fuzzy key = Some (CosineSimilarity th m)"
    and "catchAll_null (embedFn (String_js P (get_field requested key)) m) w = (Inr r0, w1)"
    and "catchAll_null (embedFn (String_js P (get_field cached key)) m) w1 = (Inr r1, w2)"
    and "r0 = None \<or> r1 = None"
  shows "scoreLoop P requested cached fuzzy embedFn (key # keys) s e w = (Inr notOk, w2)"
  using assms by (cases r0; cases r1) (auto simp: Let_def)

text \<open>
  What the matcher does contain. When the embedding function ends every run in a success or
  in an expected failure (\<^verbatim>\<open>Effect.fail\<close>), \<^verbatim>\<open>matchBestEntry\<close> returns normally: every
  fresh entry is scored, and when no score is usable the result is \<^verbatim>\<open>null\<close>. An expected
  failure of either embedding at a field under \<^verbatim>\<open>CosineSimilarity\<close> makes \<^verbatim>\<open>scoreEntry\<close>
  return \<^verbatim>\<open>ok: false\<close> for that candidate.
\<close>

lemma expected_failures_contained:
  assumes "\<forall>text model v d v'. embedFn text model v \<noteq> (Failure (Die d), v')"
  shows "(\<exists>scores r w'.
            scoreAll P ps (case fz of None \<Rightarrow> (\<lambda>key. None) | Some f \<Rightarrow> f) embedFn
              (filter (\<lambda>e. now - createdAt e \<le> ttl) entries) w = (Inr scores, w') \<and>
            matchBestEntry P now ttl ps entries fz embedFn w = (Inr r, w') \<and>
            ((\<forall>s\<in>set scores. \<not> ok s) \<longrightarrow> r = None)) \<and>
         (fuzzy key = Some (CosineSimilarity th m) \<and>
          ((\<exists>x v1. embedFn (String_js P (get_field requested key)) m v = (Failure (Fail x), v1)) \<or>
           (\<exists>a v1 x v2.
              embedFn (String_js P (get_field requested key)) m v = (Success a, v1) \<and>
              embedFn (String_js P (get_field cached key)) m v1 = (Failure (Fail x), v2))) \<longrightarrow>
          (\<exists>v2. scoreLoop P requested cached fuzzy embedFn (key # keys) s e v =
                  (Inr \<lparr>ok = False, score = 0, exact = False\<rparr>, v2)))"
proof (intro conjI impI)
  let ?f = "case fz of None \<Rightarrow> (\<lambda>key. None) | Some f \<Rightarrow> f"
  let ?fresh = "filter (\<lambda>e. now - createdAt e \<le> ttl) entries"
  from scoreAll_no_defect [OF assms] obtain scores w'
    where all: "scoreAll P ps ?f embedFn ?fresh w = (Inr scores, w')" by blast
  from matchBestEntry_of_scores [OF all] all
  show "\<exists>scores r w'.
            scoreAll P ps ?f embedFn ?fresh w = (Inr scores, w') \<and>
            matchBestEntry P now ttl ps entries fz embedFn w = (Inr r, w') \<and>
            ((\<forall>s\<in>set scores. \<not> ok s) \<longrightarrow> r = None)"
    by blast
next
  let ?req = "String_js P (get_field requested key)"
  let ?prev = "String_js P (get_field cached key)"
  assume h: "fuzzy key = Some (CosineSimilarity th m) \<and>
          ((\<exists>x v1. embedFn ?req m v = (Failure (Fail x), v1)) \<or>
           (\<exists>a v1 x v2.
              embedFn ?req m v = (Success a, v1) \<and>
              embedFn ?prev m v1 = (Failure (Fail x), v2)))"
  then have spec: "fuzzy key = Some (CosineSimilarity th m)" by simp
  from h consider
      (first) x v1 where "embedFn ?req m v = (Failure (Fail x), v1)"
    | (second) a v1 x v2 where "embedFn ?req m v = (Success a, v1)"
        and "embedFn ?prev m v1 = (Failure (Fail x), v2)"
    by blast
  then have "\<exists>v2. scoreLoop P requested cached fuzzy embedFn (key # keys) s e v = (Inr notOk, v2)"
  proof cases
    case first
    then have c0: "catchAll_null (embedFn ?req m) v = (Inr None, v1)"
      by (simp add: catchAll_null_def)
    from assms have "\<forall>d v'. embedFn ?prev m v1 \<noteq> (Failure (Die d), v')" by blast
    from catchAll_null_no_defect [of "embedFn ?prev m" v1, OF this] obtain r1 v2
      where c1: "catchAll_null (embedFn ?prev m) v1 = (Inr r1, v2)" by blast
    from cosine_field_failure [where fuzzy = fuzzy and key = key and embedFn = embedFn
        and P = P and requested = requested and cached = cached and w = v, OF spec c0 c1]
    show ?thesis by blast
  next
    case second
    then have c0: "catchAll_null (embedFn ?req m) v = (Inr (Some a), v1)"
      and c1: "catchAll_null (embedFn ?prev m) v1 = (Inr None, v2)"
      by (simp_all add: catchAll_null_def)
    from cosine_field_failure [where fuzzy = fuzzy and key = key and embedFn = embedFn
        and P = P and requested = requested and cached = cached and w = v, OF spec c0 c1]
    show ?thesis by blast
  qed
  then show "\<exists>v2. scoreLoop P requested cached fuzzy embedFn (key # keys) s e v =
                  (Inr \<lparr>ok = False, score = 0, exact = False\<rparr>, v2)"
    by (simp add: notOk_def)
qed

text \<open>
  The failing embedding function of the tests never dies; the candidate stored for the
  text that fails to embed is skipped and the lookup is a miss.
\<close>

lemma expected_failures_contained_example:
  "(\<forall>text model v d v'. failingEmbed text model v \<noteq> (Failure (Die d), v')) \<and>
   matchBestEntry examplePlatform 1000 5000 [(''prompt'', Str ''normal'')]
     [\<lparr>params = [(''prompt'', Str ''bad-text'')],
       outcome = Success ''value'' :: (string, unit) exit, createdAt = 0\<rparr>]
     (Some (\<lambda>key. if key = ''prompt'' then Some (CosineSimilarity 0.5 ''test'') else None))
     failingEmbed () = (Inr None, ())"
proof -
  let ?entries = "[\<lparr>params = [(''prompt'', Str ''bad-text'')],
       outcome = Success ''value'' :: (string, unit) exit, createdAt = 0\<rparr>]"
  let ?fz = "Some (\<lambda>key. if key = ''prompt'' then Some (CosineSimilarity 0.5 ''test'') else None)"
  have nodie: "\<forall>text model v d v'. failingEmbed text model v \<noteq> (Failure (Die d), v')"
    by (simp add: failingEmbed_def failCause_def succeed_def)
  have all: "scoreAll examplePlatform [(''prompt'', Str ''normal'')]
      (case ?fz of None \<Rightarrow> (\<lambda>key. None) | Some f \<Rightarrow> f) failingEmbed
      (filter (\<lambda>e. 1000 - createdAt e \<le> 5000) ?entries) () =
      (Inr [\<lparr>ok = False, score = 0, exact = False\<rparr>], ())"
    by (simp add: scoreEntry_def Object_keys_def get_field_def String_js_def
          catchAll_null_def failingEmbed_def failCause_def succeed_def notOk_def)
  from expected_failures_contained [OF nodie, of examplePlatform
      "[(''prompt'', Str ''normal'')]" ?fz 1000 5000 ?entries "()", THEN conjunct1]
  obtain scores r w'
    where sa: "scoreAll examplePlatform [(''prompt'', Str ''normal'')]
      (case ?fz of None \<Rightarrow> (\<lambda>key. None) | Some f \<Rightarrow> f) failingEmbed
      (filter (\<lambda>e. 1000 - createdAt e \<le> 5000) ?entries) () = (Inr scores, w')"
      and m: "matchBestEntry examplePlatform 1000 5000 [(''prompt'', Str ''normal'')] ?entries
             ?fz failingEmbed () = (Inr r, w')"
      and none: "(\<forall>s\<in>set scores. \<not> ok s) \<longrightarrow> r = None"
    by blast
  from sa [unfolded all] have sc: "scores = [\<lparr>ok = False, score = 0, exact = False\<rparr>]"
    by simp
  from none have "r = None" unfolding sc by simp
  with m have "matchBestEntry examplePlatform 1000 5000 [(''prompt'', Str ''normal'')]
      ?entries ?fz failingEmbed () = (Inr None, ())"
    by simp
  with nodie show ?thesis by blast
qed

text \<open>
  Claim C3 does not hold of the code. The claim is that a failure of the embedding provider
  never leaves the lookup: it disqualifies the candidate being scored, and when no candidate
  is left the result is \<^verbatim>\<open>null\<close>. The comments of \<^verbatim>\<open>scoreEntry\<close> say the same (embedding
  failures are caught and the candidate is skipped). Take the embedding function that the
  repository builds on its default raw provider, one fresh entry, and a request with a field
  under \<^verbatim>\<open>CosineSimilarity\<close>. The provider fails with \<^verbatim>\<open>Effect.dieMessage\<close>, the handler
  of \<^verbatim>\<open>Effect.catchAll\<close> does not see a defect, and \<^verbatim>\<open>matchBestEntry\<close> dies with the
  message of the provider instead of returning \<^verbatim>\<open>null\<close>.
\<close>

theorem embedding_defect_reaches_caller:
  "matchBestEntry examplePlatform 1000 5000 [(''prompt'', Str ''test'')]
     [\<lparr>params = [(''prompt'', Str ''test'')],
       outcome = Success ''value'' :: (string, unit) exit, createdAt = 0\<rparr>]
     (Some (\<lambda>key. if key = ''prompt'' then Some (CosineSimilarity 0.5 ''test'') else None))
     (embedMemo (defaultRawEmbed :: (unit, unit) EmbedFn)) (makeEmbeddingsService ()) =
     (Inl ''rawEmbed not implemented - provide a real embedding provider'',
      \<lparr>cacheRef = (\<lambda>key. None), provider = (), rawCalls = [(''test'', ''test'')]\<rparr>)"
  by (simp add: matchBestEntry_def scoreEntry_def Object_keys_def get_field_def String_js_def
        catchAll_null_def embedMemo_def defaultRawEmbed_def dieMessage_def
        makeEmbeddingsService_def Let_def)

section \<open>The entries a lookup considers\<close>








section \<open>Lookups that find a stored entry\<close>









section \<open>Calls of a wrapped function\<close>











section \<open>Repeated calls of a wrapped function\<close>









section \<open>Cosine similarity in double precision\<close>

text \<open>
  Rounding to the nearest double moves a number of the normal range by at most the
  fraction \<open>1 / 2 ^ 53\<close> of itself, sends a number below half the smallest subnormal
  number to zero, and leaves an integer below \<open>2 ^ 53\<close> as it is.
\<close>

lemma round_half_even_error: "\<bar>of_int (round_half_even q) - q\<bar> \<le> 1 / 2"
proof -
  have "of_int \<lfloor>q\<rfloor> \<le> q" and "q < of_int \<lfloor>q\<rfloor> + 1" by linarith+
  then show ?thesis
    by (auto simp: round_half_even_def Let_def abs_le_iff)
qed

lemma round_half_even_int: "round_half_even (of_int k) = k"
  by (simp add: round_half_even_def)

lemma round_half_even_small:
  assumes "\<bar>q\<bar> < 1 / 2"
  shows "round_half_even q = 0"
proof (cases "0 \<le> q")
  case True
  with assms have "\<lfloor>q\<rfloor> = 0" by (simp add: floor_eq_iff)
  with assms True show ?thesis by (simp add: round_half_even_def)
next
  case False
  with assms have "\<lfloor>q\<rfloor> = - 1" by (simp add: floor_eq_iff)
  with assms False show ?thesis by (simp add: round_half_even_def)
qed

lemma floor_log2_bounds:
  assumes "x \<noteq> 0"
  shows "2 powr of_int \<lfloor>log 2 \<bar>x\<bar>\<rfloor> \<le> \<bar>x\<bar>"
    and "\<bar>x\<bar> < 2 powr (of_int \<lfloor>log 2 \<bar>x\<bar>\<rfloor> + 1)"
proof -
  have pos: "0 < \<bar>x\<bar>" using assms by simp
  have "\<lfloor>log 2 \<bar>x\<bar>\<rfloor> = \<lfloor>log 2 \<bar>x\<bar>\<rfloor>" ..
  then have "2 powr of_int \<lfloor>log 2 \<bar>x\<bar>\<rfloor> \<le> \<bar>x\<bar> \<and> \<bar>x\<bar> < 2 powr (of_int \<lfloor>log 2 \<bar>x\<bar>\<rfloor> + 1)"
    using floor_log_eq_powr_iff [OF pos, of 2 "\<lfloor>log 2 \<bar>x\<bar>\<rfloor>"] by simp
  then show "2 powr of_int \<lfloor>log 2 \<bar>x\<bar>\<rfloor> \<le> \<bar>x\<bar>"
    and "\<bar>x\<bar> < 2 powr (of_int \<lfloor>log 2 \<bar>x\<bar>\<rfloor> + 1)" by simp_all
qed

lemma ulp_exponent_eq:
  "ulp_exponent x = max (E - 52) (- 1074)" if "E = \<lfloor>log 2 \<bar>x\<bar>\<rfloor>"
  using that by (simp add: ulp_exponent_def)

lemma round_double_error:
  assumes "2 powr (- 1022) \<le> \<bar>x\<bar>"
  shows "\<bar>round_double x - x\<bar> \<le> \<bar>x\<bar> / 2 ^ 53"
proof -
  have "(0 :: real) < 2 powr (- 1022)" by simp
  with assms have x0: "x \<noteq> 0" by auto
  define E where "E = \<lfloor>log 2 \<bar>x\<bar>\<rfloor>"
  note b = floor_log2_bounds [OF x0, folded E_def]
  have "(2 :: real) powr (- 1022) < 2 powr (of_int E + 1)"
    using assms b(2) by linarith
  then have "(- 1022 :: real) < of_int E + 1"
    by (simp only: powr_less_cancel_iff [of 2] one_less_numeral_iff semiring_norm)
  then have E: "- 1022 \<le> E" by linarith
  have ue: "ulp_exponent x = E - 52"
    unfolding ulp_exponent_eq [OF E_def] using E by simp
  let ?p = "2 powr of_int (E - 52) :: real"
  have p: "0 < ?p" by simp
  let ?k = "round_half_even (x / ?p)"
  have rd: "round_double x = of_int ?k * ?p"
    using x0 ue by (simp add: round_double_def)
  have "of_int ?k * ?p - x = (of_int ?k - x / ?p) * ?p"
    using p by (simp add: left_diff_distrib)
  then have "\<bar>of_int ?k * ?p - x\<bar> = \<bar>of_int ?k - x / ?p\<bar> * ?p"
    using p by (simp add: abs_mult)
  also have "\<dots> \<le> (1 / 2) * ?p"
    using round_half_even_error [of "x / ?p"] p by (intro mult_right_mono) simp_all
  also have "(1 / 2) * ?p = 2 powr of_int E / 2 ^ 53"
    by (simp add: powr_diff)
  also have "\<dots> \<le> \<bar>x\<bar> / 2 ^ 53"
    using b(1) by (intro divide_right_mono) simp_all
  finally show ?thesis using rd by simp
qed

lemma round_double_underflow:
  assumes "\<bar>x\<bar> < 2 powr (- 1075)"
  shows "round_double x = 0"
proof (cases "x = 0")
  case True
  then show ?thesis by (simp add: round_double_def)
next
  case False
  define E where "E = \<lfloor>log 2 \<bar>x\<bar>\<rfloor>"
  note b = floor_log2_bounds [OF False, folded E_def]
  have "(2 :: real) powr of_int E < 2 powr (- 1075)"
    using assms b(1) by linarith
  then have "(of_int E :: real) < - 1075"
    by (simp only: powr_less_cancel_iff [of 2] one_less_numeral_iff semiring_norm)
  then have "E < - 1075" by linarith
  then have ue: "ulp_exponent x = - 1074"
    unfolding ulp_exponent_eq [OF E_def] by simp
  have "\<bar>x / 2 powr (- 1074)\<bar> = \<bar>x\<bar> / 2 powr (- 1074)" by simp
  also have "\<dots> < 2 powr (- 1075) / 2 powr (- 1074)"
    using assms by (intro divide_strict_right_mono) simp_all
  also have "\<dots> = 1 / 2" by (simp add: powr_diff [symmetric])
  finally have "round_half_even (x / 2 powr (- 1074)) = 0"
    by (rule round_half_even_small)
  with False ue show ?thesis by (simp add: round_double_def)
qed

lemma round_double_int:
  assumes "\<bar>k\<bar> < 2 ^ 53"
  shows "round_double (of_int k) = of_int k"
proof (cases "k = 0")
  case True
  then show ?thesis by (simp add: round_double_def)
next
  case False
  let ?x = "of_int k :: real"
  have x0: "?x \<noteq> 0" using False by simp
  define E where "E = \<lfloor>log 2 \<bar>?x\<bar>\<rfloor>"
  note b = floor_log2_bounds [OF x0, folded E_def]
  have "\<bar>?x\<bar> < 2 ^ 53" using assms by (metis of_int_abs of_int_less_numeral_power_cancel_iff)
  also have "(2 :: real) ^ 53 = 2 powr 53" by simp
  finally have "\<bar>?x\<bar> < 2 powr 53" .
  with b(1) have "(2 :: real) powr of_int E < 2 powr 53" by linarith
  then have "(of_int E :: real) < 53"
    by (simp only: powr_less_cancel_iff [of 2] one_less_numeral_iff semiring_norm)
  then have E: "E \<le> 52" by linarith
  define u where "u = ulp_exponent ?x"
  have u: "u \<le> 0" unfolding u_def ulp_exponent_eq [OF E_def] using E by simp
  define n where "n = nat (- u)"
  have un: "(of_int u :: real) = - real n" using u by (simp add: n_def)
  have p: "(2 :: real) powr of_int u = 1 / 2 ^ n"
    unfolding un by (simp add: powr_minus powr_realpow divide_simps)
  have "?x / (1 / 2 ^ n) = of_int (k * 2 ^ n)" by simp
  then have "round_half_even (?x / (2 :: real) powr of_int u) = k * 2 ^ n"
    unfolding p by (simp only: round_half_even_int)
  then have "round_double ?x = of_int (k * 2 ^ n) * (1 / 2 ^ n)"
    using x0 unfolding round_double_def u_def [symmetric] p by simp
  then show ?thesis by simp
qed


lemma fl_zero: "fl 0 = Finite 0"
  by (simp add: fl_def round_double_def)

lemma fl_numeral:
  assumes "(numeral n :: int) < 2 ^ 53"
  shows "fl (numeral n) = Finite (numeral n)"
proof -
  have "\<bar>numeral n :: int\<bar> < 2 ^ 53" using assms by simp
  from round_double_int [OF this] have r: "round_double (numeral n) = numeral n" by simp
  have "(numeral n :: real) < 2 ^ 53"
    using assms by (metis of_int_less_numeral_power_cancel_iff of_int_numeral)
  also have "(2 :: real) ^ 53 < 2 ^ 1024" by simp
  finally have "(numeral n :: real) < 2 ^ 1024" .
  moreover have "- (2 ^ 1024) < (numeral n :: real)"
    by (rule less_trans [of _ 0]) simp_all
  ultimately show ?thesis by (simp add: fl_def r)
qed

lemma fl_one: "fl 1 = Finite 1"
proof -
  have "\<bar>1 :: int\<bar> < 2 ^ 53" by simp
  from round_double_int [OF this] have "round_double 1 = 1" by simp
  then show ?thesis by (simp add: fl_def)
qed

lemma fl_underflow:
  assumes "\<bar>x\<bar> < 1 / 2 ^ 1075"
  shows "fl x = Finite 0"
proof -
  have "(2 :: real) powr (- 1075) = 1 / 2 ^ 1075"
    by (simp add: powr_minus divide_simps)
  with assms have "\<bar>x\<bar> < 2 powr (- 1075)" by simp
  then have "round_double x = 0" by (rule round_double_underflow)
  then show ?thesis by (simp add: fl_def)
qed

lemma fl_normal:
  assumes lo: "1 / 2 ^ 1022 \<le> x" and hi: "x \<le> 3 * 2 ^ 1022"
  shows "\<exists>r. fl x = Finite r \<and> x * (1 - 1 / 2 ^ 53) \<le> r \<and> r \<le> x * (1 + 1 / 2 ^ 53)"
proof -
  have "(0 :: real) < 1 / 2 ^ 1022" by simp
  then have pos: "0 < x" using lo by (rule less_le_trans)
  have "(2 :: real) powr (- 1022) = 1 / 2 ^ 1022"
    by (simp add: powr_minus divide_simps)
  then have "2 powr (- 1022) \<le> x" using lo by (simp only:)
  also have "x = \<bar>x\<bar>" using pos by simp
  finally have "2 powr (- 1022) \<le> \<bar>x\<bar>" .
  from round_double_error [OF this] pos
  have err: "\<bar>round_double x - x\<bar> \<le> x / 2 ^ 53" by simp
  define d where "d = x / 2 ^ 53"
  from err have "x - d \<le> round_double x" and "round_double x \<le> x + d"
    unfolding d_def [symmetric] by linarith+
  moreover have "x * (1 - 1 / 2 ^ 53) = x - d" and "x * (1 + 1 / 2 ^ 53) = x + d"
    by (simp_all add: d_def algebra_simps)
  ultimately have low: "x * (1 - 1 / 2 ^ 53) \<le> round_double x"
    and high: "round_double x \<le> x * (1 + 1 / 2 ^ 53)"
    by simp_all
  have "(0 :: real) \<le> 1 + 1 / 2 ^ 53" by simp
  then have "x * (1 + 1 / 2 ^ 53) \<le> (3 * 2 ^ 1022) * (1 + 1 / 2 ^ 53)"
    using hi by (intro mult_right_mono)
  also have "\<dots> < (2 :: real) ^ 1024" by simp
  finally have "x * (1 + 1 / 2 ^ 53) < 2 ^ 1024" .
  with high have "round_double x < 2 ^ 1024" by (rule le_less_trans)
  then have n1: "\<not> 2 ^ 1024 \<le> round_double x" by (simp only: not_le)
  have "(0 :: real) \<le> 1 - 1 / 2 ^ 53" by simp
  with pos have "0 \<le> x * (1 - 1 / 2 ^ 53)" by (intro mult_nonneg_nonneg) simp_all
  then have "0 \<le> round_double x" using low by (rule order_trans)
  moreover have "- (2 ^ 1024) < (0 :: real)" by simp
  ultimately have "- (2 ^ 1024) < round_double x" by (rule less_le_trans [rotated])
  then have n2: "\<not> round_double x \<le> - (2 ^ 1024)" by (simp only: not_le)
  have "fl x = Finite (round_double x)"
    by (simp only: fl_def Let_def n1 n2 if_False)
  with low high show ?thesis by (intro exI [of _ "round_double x"] conjI)
qed

lemma fl_overflow:
  assumes "2 ^ 1025 \<le> x"
  shows "fl x = PlusInfinity"
proof -
  have "(0 :: real) < 2 ^ 1025" by simp
  then have pos: "0 < x" using assms by (rule less_le_trans)
  have "(2 :: real) powr (- 1022) \<le> 2 ^ 1025"
    by (simp add: powr_minus divide_simps)
  then have "2 powr (- 1022) \<le> x" using assms by (rule order_trans)
  also have "x = \<bar>x\<bar>" using pos by simp
  finally have "2 powr (- 1022) \<le> \<bar>x\<bar>" .
  from round_double_error [OF this] pos
  have err: "\<bar>round_double x - x\<bar> \<le> x / 2 ^ 53" by simp
  define d where "d = x / 2 ^ 53"
  from err have "x - d \<le> round_double x"
    unfolding d_def [symmetric] by linarith
  moreover have "x * (1 - 1 / 2 ^ 53) = x - d"
    by (simp add: d_def algebra_simps)
  ultimately have low: "x * (1 - 1 / 2 ^ 53) \<le> round_double x" by simp
  have "(2 :: real) ^ 1024 \<le> 2 ^ 1025 * (1 - 1 / 2 ^ 53)" by simp
  also have "\<dots> \<le> x * (1 - 1 / 2 ^ 53)"
    using assms by (intro mult_right_mono) simp_all
  also note low
  finally have "2 ^ 1024 \<le> round_double x" .
  then show ?thesis by (simp only: fl_def Let_def if_True)
qed



lemma mul64_commute: "mul64 a b = mul64 b a"
  by (cases a; cases b) (simp_all add: mult.commute)

lemma cosineLoop_swap:
  "cosineLoop a b (d, ma, mb) = (d', ma', mb') \<Longrightarrow>
   cosineLoop b a (d, mb, ma) = (d', mb', ma')"
proof (induction a arbitrary: b d ma mb)
  case Nil
  then show ?case by (cases b) simp_all
next
  case (Cons ai as)
  show ?case
  proof (cases b)
    case Nil
    with Cons.prems show ?thesis by simp
  next
    case (Cons bi bs)
    with Cons.prems Cons.IH show ?thesis by (simp add: mul64_commute [of bi ai])
  qed
qed

lemma cosineSimilarity_commute: "cosineSimilarity a b = cosineSimilarity b a"
proof -
  obtain d ma mb where l: "cosineLoop a b (Finite 0, Finite 0, Finite 0) = (d, ma, mb)"
    by (cases "cosineLoop a b (Finite 0, Finite 0, Finite 0)")
  from cosineLoop_swap [OF l]
  have r: "cosineLoop b a (Finite 0, Finite 0, Finite 0) = (d, mb, ma)" .
  show ?thesis
    unfolding cosineSimilarity_def l r
    by (simp add: mul64_commute [of "sqrt64 ma"] disj_commute)
qed

lemma cosineLoop_zero_left:
  assumes "\<forall>x\<in>set a. x = Finite 0"
  shows "\<exists>d mb. cosineLoop a b (d0, Finite 0, mb0) = (d, Finite 0, mb)"
  using assms
proof (induction a arbitrary: b d0 mb0)
  case Nil
  show ?case by simp
next
  case (Cons ai as)
  then have ai: "ai = Finite 0" and rest: "\<forall>x\<in>set as. x = Finite 0" by simp_all
  show ?case
  proof (cases b)
    case Nil
    then show ?thesis by simp
  next
    case (Cons bi bs)
    from Cons.IH [OF rest, of bs "add64 d0 (mul64 ai bi)" "add64 mb0 (mul64 bi bi)"]
    show ?thesis unfolding Cons ai by (simp add: fl_zero)
  qed
qed

lemma cosineSimilarity_zero:
  assumes "(\<forall>x\<in>set a. x = Finite 0) \<or> (\<forall>y\<in>set b. y = Finite 0)"
  shows "cosineSimilarity a b = Finite 0"
  using assms
proof
  assume "\<forall>x\<in>set a. x = Finite 0"
  from cosineLoop_zero_left [OF this, of b "Finite 0" "Finite 0"] obtain d mb
    where "cosineLoop a b (Finite 0, Finite 0, Finite 0) = (d, Finite 0, mb)" by blast
  then show ?thesis by (simp add: cosineSimilarity_def)
next
  assume "\<forall>y\<in>set b. y = Finite 0"
  from cosineLoop_zero_left [OF this, of a "Finite 0" "Finite 0"] obtain d mb
    where "cosineLoop b a (Finite 0, Finite 0, Finite 0) = (d, Finite 0, mb)" by blast
  then have "cosineSimilarity b a = Finite 0" by (simp add: cosineSimilarity_def)
  then show ?thesis by (simp only: cosineSimilarity_commute [of a b])
qed

lemma cosineLoop_self:
  "cosineLoop a a (x, x, x) = (d, ma, mb) \<Longrightarrow> d = ma \<and> mb = ma"
  by (induction a arbitrary: x) simp_all

lemma square_between:
  fixes r :: real
  assumes "0 \<le> lo" and "lo \<le> r" and "r \<le> hi"
  shows "lo * lo \<le> r * r" and "r * r \<le> hi * hi"
  using assms by (simp_all add: mult_mono)

lemma self_similarity:
  assumes loop: "cosineLoop a a (Finite 0, Finite 0, Finite 0) = (dot, Finite m, magB)"
    and lo: "1 / 2 ^ 1021 \<le> m" and hi: "m \<le> 2 ^ 1023"
  shows "\<exists>r. cosineSimilarity a a = Finite r \<and> \<bar>r - 1\<bar> \<le> 1 / 2 ^ 50"
proof -
  define u :: real where "u = 1 / 2 ^ 53"
  have u0: "0 \<le> 1 - u" "0 \<le> 1 + u" "0 < 1 - u" "0 < 1 + u" by (simp_all add: u_def)
  have N1: "1 / 2 ^ 1022 \<le> (1 / 2 ^ 1021) * ((1 - u) * (1 - u))" by (simp add: u_def)
  have N2: "2 ^ 1023 * ((1 + u) * (1 + u)) \<le> 3 * 2 ^ 1022" by (simp add: u_def)
  have N3: "1 / 2 ^ 1022 \<le> 1 / ((1 + u) * (1 + u) * (1 + u))" by (simp add: u_def)
  have N4: "1 / ((1 - u) * (1 - u) * (1 - u)) \<le> 3 * 2 ^ 1022" by (simp add: u_def)
  have N5: "1 / ((1 - u) * (1 - u) * (1 - u)) * (1 + u) \<le> 1 + 1 / 2 ^ 50" by (simp add: u_def)
  have N6: "1 - 1 / 2 ^ 50 \<le> 1 / ((1 + u) * (1 + u) * (1 + u)) * (1 - u)" by (simp add: u_def)
  note normal = fl_normal [folded u_def]
  have "(0 :: real) < 1 / 2 ^ 1021" by simp
  then have mpos: "0 < m" using lo by (rule less_le_trans)
  from cosineLoop_self [OF loop] have dot: "dot = Finite m" and magB: "magB = Finite m"
    by simp_all
  have cs: "cosineSimilarity a a =
      div64 (Finite m) (mul64 (sqrt64 (Finite m)) (sqrt64 (Finite m)))"
    using mpos by (simp add: cosineSimilarity_def loop dot magB)
  define sm where "sm = sqrt m"
  have sm2: "sm * sm = m" using mpos by (simp add: sm_def)
  have smpos: "0 < sm" using mpos by (simp add: sm_def)
  have "(1 / 2 ^ 511)\<^sup>2 \<le> m"
    by (rule order_trans [OF _ lo]) (simp add: power2_eq_square)
  then have "1 / 2 ^ 511 \<le> sm" unfolding sm_def by (rule real_le_rsqrt)
  moreover have "(1 :: real) / 2 ^ 1022 \<le> 1 / 2 ^ 511" by simp
  ultimately have s_lo: "1 / 2 ^ 1022 \<le> sm" by (rule order_trans [rotated])
  have "m \<le> (2 ^ 512)\<^sup>2"
    by (rule order_trans [OF hi]) (simp add: power2_eq_square)
  then have "sm \<le> 2 ^ 512" unfolding sm_def by (intro real_le_lsqrt) simp_all
  moreover have "(2 :: real) ^ 512 \<le> 3 * 2 ^ 1022" by simp
  ultimately have s_hi: "sm \<le> 3 * 2 ^ 1022" by (rule order_trans)
  from normal [OF s_lo s_hi] obtain rs
    where rs: "fl sm = Finite rs" and rs_lo: "sm * (1 - u) \<le> rs" and rs_hi: "rs \<le> sm * (1 + u)"
    by blast
  have sq: "sqrt64 (Finite m) = Finite rs"
    using mpos rs by (simp add: sm_def)
  have "0 \<le> sm * (1 - u)" using smpos u0 by simp
  from square_between [OF this rs_lo rs_hi]
  have "sm * (1 - u) * (sm * (1 - u)) \<le> rs * rs" and "rs * rs \<le> sm * (1 + u) * (sm * (1 + u))" .
  moreover have "sm * (1 - u) * (sm * (1 - u)) = (sm * sm) * ((1 - u) * (1 - u))"
    by (simp only: mult_ac)
  moreover have "sm * (1 + u) * (sm * (1 + u)) = (sm * sm) * ((1 + u) * (1 + u))"
    by (simp only: mult_ac)
  ultimately have x_lo: "m * ((1 - u) * (1 - u)) \<le> rs * rs"
    and x_hi: "rs * rs \<le> m * ((1 + u) * (1 + u))" by (simp_all only: sm2)
  have "(1 / 2 ^ 1021) * ((1 - u) * (1 - u)) \<le> m * ((1 - u) * (1 - u))"
    using lo u0 by (intro mult_right_mono) simp_all
  with N1 x_lo have p_lo: "1 / 2 ^ 1022 \<le> rs * rs" by linarith
  have "m * ((1 + u) * (1 + u)) \<le> 2 ^ 1023 * ((1 + u) * (1 + u))"
    using hi u0 by (intro mult_right_mono) simp_all
  with N2 x_hi have p_hi: "rs * rs \<le> 3 * 2 ^ 1022" by linarith
  from normal [OF p_lo p_hi] obtain rp
    where rp: "fl (rs * rs) = Finite rp" and rp_lo: "rs * rs * (1 - u) \<le> rp"
      and rp_hi: "rp \<le> rs * rs * (1 + u)"
    by blast
  have "m * ((1 - u) * (1 - u)) * (1 - u) \<le> rs * rs * (1 - u)"
    using x_lo u0 by (intro mult_right_mono) simp_all
  with rp_lo have d_lo: "m * ((1 - u) * (1 - u) * (1 - u)) \<le> rp" by (simp add: mult.assoc)
  have "rs * rs * (1 + u) \<le> m * ((1 + u) * (1 + u)) * (1 + u)"
    using x_hi u0 by (intro mult_right_mono) simp_all
  with rp_hi have d_hi: "rp \<le> m * ((1 + u) * (1 + u) * (1 + u))" by (simp add: mult.assoc)
  have l3: "0 < (1 - u) * (1 - u) * (1 - u)" and h3: "0 < (1 + u) * (1 + u) * (1 + u)"
    using u0 by simp_all
  have lpos: "0 < m * ((1 - u) * (1 - u) * (1 - u))" using mpos l3 by simp
  with d_lo have rppos: "0 < rp" by linarith
  have prodpos: "0 < rp * (m * ((1 - u) * (1 - u) * (1 - u)))"
    using rppos lpos by (rule mult_pos_pos)
  have dv: "div64 (Finite m) (mul64 (Finite rs) (Finite rs)) = fl (m / rp)"
    using rp rppos by simp
  have "m / rp \<le> m / (m * ((1 - u) * (1 - u) * (1 - u)))"
    using mpos d_lo prodpos by (intro divide_left_mono) simp_all
  also have "\<dots> = 1 / ((1 - u) * (1 - u) * (1 - u))" using mpos by simp
  finally have q_hi: "m / rp \<le> 1 / ((1 - u) * (1 - u) * (1 - u))" .
  have "0 < m * ((1 + u) * (1 + u) * (1 + u))" using mpos h3 by simp
  then have "0 < m * ((1 + u) * (1 + u) * (1 + u)) * rp"
    using rppos by (rule mult_pos_pos)
  then have "m / (m * ((1 + u) * (1 + u) * (1 + u))) \<le> m / rp"
    using mpos d_hi by (intro divide_left_mono) simp_all
  moreover have "m / (m * ((1 + u) * (1 + u) * (1 + u))) = 1 / ((1 + u) * (1 + u) * (1 + u))"
    using mpos by simp
  ultimately have q_lo: "1 / ((1 + u) * (1 + u) * (1 + u)) \<le> m / rp" by simp
  from N3 q_lo have f_lo: "1 / 2 ^ 1022 \<le> m / rp" by (rule order_trans)
  from q_hi N4 have f_hi: "m / rp \<le> 3 * 2 ^ 1022" by (rule order_trans)
  from normal [OF f_lo f_hi] obtain rq
    where rq: "fl (m / rp) = Finite rq" and rq_lo: "m / rp * (1 - u) \<le> rq"
      and rq_hi: "rq \<le> m / rp * (1 + u)"
    by blast
  have "m / rp * (1 + u) \<le> 1 / ((1 - u) * (1 - u) * (1 - u)) * (1 + u)"
    using q_hi u0 by (intro mult_right_mono) simp_all
  with rq_hi N5 have up: "rq \<le> 1 + 1 / 2 ^ 50" by linarith
  have "1 / ((1 + u) * (1 + u) * (1 + u)) * (1 - u) \<le> m / rp * (1 - u)"
    using q_lo u0 by (intro mult_right_mono) simp_all
  with rq_lo N6 have down: "1 - 1 / 2 ^ 50 \<le> rq" by linarith
  define t :: real where "t = 1 / 2 ^ 50"
  from up down have "rq \<le> 1 + t" and "1 - t \<le> rq" by (simp_all only: t_def)
  then have "\<bar>rq - 1\<bar> \<le> t" by linarith
  then have "\<bar>rq - 1\<bar> \<le> 1 / 2 ^ 50" by (simp only: t_def)
  moreover have "cosineSimilarity a a = Finite rq"
    unfolding cs sq dv rq ..
  ultimately show ?thesis by blast
qed


text \<open>
  The similarity of a vector with itself is not always near 1. The squares of the components
  of \<^verbatim>\<open>[2 ** 600, 0]\<close> overflow: the three sums are infinite and the quotient of two
  infinities is \<^verbatim>\<open>NaN\<close>. The square of the component of \<^verbatim>\<open>[2 ** -600]\<close> underflows to
  zero: the guard takes the vector for one of zero magnitude and the result is 0.
\<close>

theorem self_similarity_counterexample:
  "cosineSimilarity [Finite (2 ^ 600), Finite 0] [Finite (2 ^ 600), Finite 0] = NotANumber \<and>
   Finite (1 / 2 ^ 600) \<noteq> Finite 0 \<and>
   cosineSimilarity [Finite (1 / 2 ^ 600)] [Finite (1 / 2 ^ 600)] = Finite 0"
proof (intro conjI)
  have big: "fl (2 ^ 600 * 2 ^ 600) = PlusInfinity"
    by (rule fl_overflow) simp
  have loop: "cosineLoop [Finite (2 ^ 600), Finite 0] [Finite (2 ^ 600), Finite 0]
      (Finite 0, Finite 0, Finite 0) = (PlusInfinity, PlusInfinity, PlusInfinity)"
    by (simp only: cosineLoop.simps mul64.simps add64.simps big fl_zero mult_zero_left)
  show "cosineSimilarity [Finite (2 ^ 600), Finite 0] [Finite (2 ^ 600), Finite 0] = NotANumber"
    unfolding cosineSimilarity_def loop by simp
next
  show "Finite (1 / 2 ^ 600) \<noteq> Finite 0" by simp
next
  have small: "fl (1 / 2 ^ 600 * (1 / 2 ^ 600)) = Finite 0"
    by (rule fl_underflow) simp
  have loop: "cosineLoop [Finite (1 / 2 ^ 600)] [Finite (1 / 2 ^ 600)]
      (Finite 0, Finite 0, Finite 0) = (Finite 0, Finite 0, Finite 0)"
    by (simp only: cosineLoop.simps mul64.simps add64.simps small fl_zero add_0)
  show "cosineSimilarity [Finite (1 / 2 ^ 600)] [Finite (1 / 2 ^ 600)] = Finite 0"
    unfolding cosineSimilarity_def loop by simp
qed

text \<open>
  Claim C9, as amended. In the double-precision arithmetic of the code, the similarity does
  not depend on the order of its two arguments; it is exactly 0, by the guard before the
  division and whatever the other vector holds, when every component of one of the two
  vectors is zero; and the similarity of a vector with itself is a finite number within
  \<open>1 / 2 ^ 50\<close> of 1 whenever the sum of the squares of its components, as the loop
  computes it in \<^verbatim>\<open>magA\<close>, is a finite number from \<open>1 / 2 ^ 1021\<close> to \<open>2 ^ 1023\<close>.
\<close>

theorem cosineSimilarity_properties:
  "cosineSimilarity a b = cosineSimilarity b a \<and>
   ((\<forall>x\<in>set a. x = Finite 0) \<or> (\<forall>y\<in>set b. y = Finite 0) \<longrightarrow>
      cosineSimilarity a b = Finite 0) \<and>
   (\<forall>dot m magB.
      cosineLoop a a (Finite 0, Finite 0, Finite 0) = (dot, Finite m, magB) \<and>
      1 / 2 ^ 1021 \<le> m \<and> m \<le> 2 ^ 1023 \<longrightarrow>
      (\<exists>r. cosineSimilarity a a = Finite r \<and> \<bar>r - 1\<bar> \<le> 1 / 2 ^ 50))"
proof (intro conjI allI impI)
  show "cosineSimilarity a b = cosineSimilarity b a"
    by (rule cosineSimilarity_commute)
next
  assume "(\<forall>x\<in>set a. x = Finite 0) \<or> (\<forall>y\<in>set b. y = Finite 0)"
  then show "cosineSimilarity a b = Finite 0"
    by (rule cosineSimilarity_zero)
next
  fix dot m magB
  assume h: "cosineLoop a a (Finite 0, Finite 0, Finite 0) = (dot, Finite m, magB) \<and>
      1 / 2 ^ 1021 \<le> m \<and> m \<le> 2 ^ 1023"
  from h have "cosineLoop a a (Finite 0, Finite 0, Finite 0) = (dot, Finite m, magB)"
    by (rule conjunct1)
  moreover from h have "1 / 2 ^ 1021 \<le> m" by (rule conjunct2 [THEN conjunct1])
  moreover from h have "m \<le> 2 ^ 1023" by (rule conjunct2 [THEN conjunct2])
  ultimately show "\<exists>r. cosineSimilarity a a = Finite r \<and> \<bar>r - 1\<bar> \<le> 1 / 2 ^ 50"
    by (rule self_similarity)
qed

theorem cosineSimilarity_properties_witness:
  "cosineSimilarity [Finite 3, Finite 4] [Finite 0, Finite 0] =
     cosineSimilarity [Finite 0, Finite 0] [Finite 3, Finite 4] \<and>
   cosineSimilarity [Finite 3, Finite 4] [Finite 0, Finite 0] = Finite 0 \<and>
   cosineLoop [Finite 3, Finite 4] [Finite 3, Finite 4] (Finite 0, Finite 0, Finite 0) =
     (Finite 25, Finite 25, Finite 25) \<and>
   (\<exists>r. cosineSimilarity [Finite 3, Finite 4] [Finite 3, Finite 4] = Finite r \<and>
        \<bar>r - 1\<bar> \<le> 1 / 2 ^ 50)"
proof -
  let ?a = "[Finite 3, Finite 4]"
  let ?b = "[Finite 0, Finite 0]"
  note inst = cosineSimilarity_properties [of ?a ?b]
  have zero: "(\<forall>x\<in>set ?a. x = Finite 0) \<or> (\<forall>y\<in>set ?b. y = Finite 0)" by simp
  have loop: "cosineLoop ?a ?a (Finite 0, Finite 0, Finite 0) =
      (Finite 25, Finite 25, Finite 25)"
    by (simp add: fl_numeral)
  have range: "cosineLoop ?a ?a (Finite 0, Finite 0, Finite 0) =
      (Finite 25, Finite 25, Finite 25) \<and> 1 / 2 ^ 1021 \<le> (25 :: real) \<and> (25 :: real) \<le> 2 ^ 1023"
    using loop by simp
  from inst have c1: "cosineSimilarity ?a ?b = cosineSimilarity ?b ?a"
    by (rule conjunct1)
  from inst [THEN conjunct2, THEN conjunct1] zero
  have c2: "cosineSimilarity ?a ?b = Finite 0" by (rule mp)
  from inst [THEN conjunct2, THEN conjunct2, THEN spec, THEN spec, THEN spec, THEN mp, OF range]
  have c3: "\<exists>r. cosineSimilarity ?a ?a = Finite r \<and> \<bar>r - 1\<bar> \<le> 1 / 2 ^ 50" .
  from c1 c2 loop c3 show ?thesis by (intro conjI)
qed

end
